theory Spec2Isabelle
  imports Complex_Main "HOL-Library.Word" "HOL-Library.Log_Nat"
begin

unbundle bit_operations_syntax

section \<open>JavaScript values used by ColorManager.ts\<close>

text \<open>
  The file under verification is \<^verbatim>\<open>src/browser/ColorManager.ts\<close>. It computes with
  JavaScript numbers (IEEE-754 doubles), strings and arrays. A finite double is a rational
  number, so a number is modelled as a rational, NaN or an infinity, and every operation
  that rounds in JavaScript rounds here too (\<open>fl\<close>, round to nearest, ties to even, 53 bits
  of precision, gradual underflow, overflow to infinity). The sign of zero is not kept: no
  operation of the file can observe it.
\<close>

type_synonym u32 = "32 word"
type_synonym u8 = "8 word"

datatype js_number = Finite rat | NaN | PosInfinity | NegInfinity

datatype js_error = TypeError | Error string

datatype completion = Normal | Throw js_error

definition pow2 :: "int \<Rightarrow> rat" where
  "pow2 k = (if 0 \<le> k then 2 ^ nat k else 1 / 2 ^ nat (- k))"

definition floor_log2 :: "rat \<Rightarrow> int" where
  \<comment> \<open>for \<open>0 < x\<close>: the exponent \<open>e\<close> with \<open>2 ^ e \<le> x < 2 ^ (e + 1)\<close>\<close>
  "floor_log2 x = (if 1 \<le> x then bitlen \<lfloor>x\<rfloor> - 1 else - bitlen (\<lceil>1 / x\<rceil> - 1))"

definition round_half_even :: "rat \<Rightarrow> int" where
  "round_half_even x =
     (let f = \<lfloor>x\<rfloor>; d = x - of_int f
      in if d < 1 / 2 then f else if 1 / 2 < d then f + 1 else if even f then f else f + 1)"

definition ulp_exp :: "rat \<Rightarrow> int" where
  \<comment> \<open>the exponent of the spacing of the doubles around \<open>a\<close> (\<open>0 < a\<close>)\<close>
  "ulp_exp a = max (floor_log2 a) (- 1022) - 52"

definition fl :: "rat \<Rightarrow> js_number" where
  \<comment> \<open>the double nearest to a rational\<close>
  "fl x =
     (if x = 0 then Finite 0
      else let a = \<bar>x\<bar>;
               u = pow2 (ulp_exp a);
               r = of_int (round_half_even (a / u)) * u
           in if pow2 1024 \<le> r then (if 0 < x then PosInfinity else NegInfinity)
              else Finite (if 0 < x then r else - r))"

definition trunc :: "rat \<Rightarrow> int" where
  "trunc q = (if 0 \<le> q then \<lfloor>q\<rfloor> else \<lceil>q\<rceil>)"

definition js_mul :: "js_number \<Rightarrow> js_number \<Rightarrow> js_number" where
  \<comment> \<open>\<^verbatim>\<open>x * y\<close>\<close>
  "js_mul x y =
     (case (x, y) of
        (Finite a, Finite b) \<Rightarrow> fl (a * b)
      | (NaN, _) \<Rightarrow> NaN
      | (_, NaN) \<Rightarrow> NaN
      | (Finite a, PosInfinity) \<Rightarrow> (if a = 0 then NaN else if 0 < a then PosInfinity else NegInfinity)
      | (Finite a, NegInfinity) \<Rightarrow> (if a = 0 then NaN else if 0 < a then NegInfinity else PosInfinity)
      | (PosInfinity, Finite b) \<Rightarrow> (if b = 0 then NaN else if 0 < b then PosInfinity else NegInfinity)
      | (NegInfinity, Finite b) \<Rightarrow> (if b = 0 then NaN else if 0 < b then NegInfinity else PosInfinity)
      | (PosInfinity, PosInfinity) \<Rightarrow> PosInfinity
      | (NegInfinity, NegInfinity) \<Rightarrow> PosInfinity
      | (PosInfinity, NegInfinity) \<Rightarrow> NegInfinity
      | (NegInfinity, PosInfinity) \<Rightarrow> NegInfinity)"

definition js_div :: "js_number \<Rightarrow> js_number \<Rightarrow> js_number" where
  \<comment> \<open>\<^verbatim>\<open>x / y\<close>, for the finite operands the file divides\<close>
  "js_div x y =
     (case (x, y) of
        (Finite a, Finite b) \<Rightarrow>
          (if b = 0 then (if a = 0 then NaN else if 0 < a then PosInfinity else NegInfinity)
           else fl (a / b))
      | _ \<Rightarrow> NaN)"

definition js_rem :: "js_number \<Rightarrow> js_number \<Rightarrow> js_number" where
  \<comment> \<open>\<^verbatim>\<open>x % y\<close>: the remainder of the truncated quotient; exact, it never rounds\<close>
  "js_rem x y =
     (case (x, y) of
        (Finite a, Finite b) \<Rightarrow> (if b = 0 then NaN else Finite (a - b * of_int (trunc (a / b))))
      | (Finite a, PosInfinity) \<Rightarrow> Finite a
      | (Finite a, NegInfinity) \<Rightarrow> Finite a
      | _ \<Rightarrow> NaN)"

definition Math_round :: "js_number \<Rightarrow> js_number" where
  \<comment> \<open>\<^verbatim>\<open>Math.round\<close>: the nearest integer, a tie going up\<close>
  "Math_round x = (case x of Finite q \<Rightarrow> Finite (of_int \<lfloor>q + 1 / 2\<rfloor>) | _ \<Rightarrow> x)"

definition ToInt32 :: "js_number \<Rightarrow> u32" where
  \<comment> \<open>the conversion the bitwise operators apply to an operand: truncate, then wrap to 32 bits\<close>
  "ToInt32 x = (case x of Finite q \<Rightarrow> word_of_int (trunc q) | _ \<Rightarrow> 0)"

definition bitor0 :: "js_number \<Rightarrow> int" where
  \<comment> \<open>\<^verbatim>\<open>x | 0\<close>\<close>
  "bitor0 x = sint (ToInt32 x)"

subsection \<open>Strings\<close>

text \<open>
  A string is a list of 8-bit code units. The strings that matter here (theme colours, the
  serialised \<^verbatim>\<open>fillStyle\<close>) are ASCII.
\<close>

definition substring :: "string \<Rightarrow> int \<Rightarrow> int \<Rightarrow> string" where
  \<comment> \<open>\<^verbatim>\<open>s.substring(start, end)\<close>: both ends clamped to the string, swapped when out of order\<close>
  "substring s start end' =
     (let len = int (length s);
          a = min (max start 0) len;
          b = min (max end' 0) len
      in take (nat (max a b - min a b)) (drop (nat (min a b)) s))"

fun split :: "char \<Rightarrow> string \<Rightarrow> string list" where
  \<comment> \<open>\<^verbatim>\<open>s.split(sep)\<close> for a one-character separator\<close>
  "split sep [] = [[]]"
| "split sep (c # cs) =
     (if c = sep then [] # split sep cs
      else (case split sep cs of [] \<Rightarrow> [[c]] | w # ws \<Rightarrow> (c # w) # ws))"

definition is_ws :: "char \<Rightarrow> bool" where
  \<comment> \<open>white space and line terminators (tab, LF, VT, FF, CR, space, no-break space)\<close>
  "is_ws c = (c \<in> set [CHR 0x09, CHR 0x0A, CHR 0x0B, CHR 0x0C, CHR 0x0D, CHR 0x20, CHR 0xA0])"

definition trim :: "string \<Rightarrow> string" where
  "trim s = rev (dropWhile is_ws (rev (dropWhile is_ws s)))"

definition digit_of :: "char \<Rightarrow> nat option" where
  "digit_of c =
     map_of [(CHR ''0'', 0), (CHR ''1'', 1), (CHR ''2'', 2), (CHR ''3'', 3), (CHR ''4'', 4),
             (CHR ''5'', 5), (CHR ''6'', 6), (CHR ''7'', 7), (CHR ''8'', 8), (CHR ''9'', 9),
             (CHR ''a'', 10), (CHR ''b'', 11), (CHR ''c'', 12), (CHR ''d'', 13), (CHR ''e'', 14),
             (CHR ''f'', 15), (CHR ''A'', 10), (CHR ''B'', 11), (CHR ''C'', 12), (CHR ''D'', 13),
             (CHR ''E'', 14), (CHR ''F'', 15)] c"

fun digits_value :: "nat \<Rightarrow> nat \<Rightarrow> string \<Rightarrow> nat option" where
  \<comment> \<open>the value of a run of digits in a base, read after the accumulator; \<open>None\<close> at a
      character that is no digit of the base\<close>
  "digits_value base acc [] = Some acc"
| "digits_value base acc (c # cs) =
     (case digit_of c of
        None \<Rightarrow> None
      | Some d \<Rightarrow> if d < base then digits_value base (base * acc + d) cs else None)"

definition digits :: "nat \<Rightarrow> string \<Rightarrow> nat option" where
  \<comment> \<open>one digit at least\<close>
  "digits base s = (if s = [] then None else digits_value base 0 s)"

definition signed_integer :: "string \<Rightarrow> int option" where
  \<comment> \<open>the exponent of a decimal literal: digits after an optional sign\<close>
  "signed_integer s =
     (case s of
        [] \<Rightarrow> None
      | c # cs \<Rightarrow>
          if c = CHR ''-'' then map_option (\<lambda>n. - int n) (digits 10 cs)
          else if c = CHR ''+'' then map_option int (digits 10 cs)
          else map_option int (digits 10 s))"

definition is_exp :: "char \<Rightarrow> bool" where
  "is_exp c = (c = CHR ''e'' \<or> c = CHR ''E'')"

definition mantissa :: "string \<Rightarrow> rat option" where
  \<comment> \<open>\<^verbatim>\<open>digits\<close>, \<^verbatim>\<open>digits.\<close>, \<^verbatim>\<open>digits.digits\<close> or \<^verbatim>\<open>.digits\<close>\<close>
  "mantissa s =
     (let ip = takeWhile (\<lambda>c. c \<noteq> CHR ''.'') s;
          rest = dropWhile (\<lambda>c. c \<noteq> CHR ''.'') s
      in if rest = [] then map_option of_nat (digits 10 ip)
         else let fp = tl rest
              in if ip = [] \<and> fp = [] then None
                 else (case digits_value 10 0 (ip @ fp) of
                         None \<Rightarrow> None
                       | Some n \<Rightarrow> Some (of_nat n / 10 ^ length fp)))"

definition unsigned_decimal :: "string \<Rightarrow> rat option" where
  \<comment> \<open>a mantissa and an optional exponent part\<close>
  "unsigned_decimal s =
     (let m = takeWhile (\<lambda>c. \<not> is_exp c) s;
          rest = dropWhile (\<lambda>c. \<not> is_exp c) s
      in if rest = [] then mantissa m
         else (case (mantissa m, signed_integer (tl rest)) of
                 (Some q, Some k) \<Rightarrow> Some (if 0 \<le> k then q * 10 ^ nat k else q / 10 ^ nat (- k))
               | _ \<Rightarrow> None))"

definition unsigned_literal :: "string \<Rightarrow> js_number" where
  "unsigned_literal s =
     (if s = ''Infinity'' then PosInfinity
      else (case unsigned_decimal s of None \<Rightarrow> NaN | Some q \<Rightarrow> fl q))"

definition js_negate :: "js_number \<Rightarrow> js_number" where
  "js_negate x =
     (case x of Finite q \<Rightarrow> Finite (- q) | NaN \<Rightarrow> NaN
      | PosInfinity \<Rightarrow> NegInfinity | NegInfinity \<Rightarrow> PosInfinity)"

definition non_decimal :: "string \<Rightarrow> nat option" where
  \<comment> \<open>\<^verbatim>\<open>0x\<close>, \<^verbatim>\<open>0o\<close> and \<^verbatim>\<open>0b\<close> integers\<close>
  "non_decimal s =
     (case s of
        c0 # c1 # cs \<Rightarrow>
          if c0 \<noteq> CHR ''0'' then None
          else if c1 = CHR ''x'' \<or> c1 = CHR ''X'' then digits 16 cs
          else if c1 = CHR ''o'' \<or> c1 = CHR ''O'' then digits 8 cs
          else if c1 = CHR ''b'' \<or> c1 = CHR ''B'' then digits 2 cs
          else None
      | _ \<Rightarrow> None)"

definition Number :: "string \<Rightarrow> js_number" where
  \<comment> \<open>\<^verbatim>\<open>Number(s)\<close> for a string: the numeric literal between white space, the empty string
      being 0 and anything else NaN\<close>
  "Number s =
     (let t = trim s
      in case t of
           [] \<Rightarrow> Finite 0
         | c # cs \<Rightarrow>
             (case non_decimal t of
                Some n \<Rightarrow> fl (of_nat n)
              | None \<Rightarrow>
                  if c = CHR ''-'' then js_negate (unsigned_literal cs)
                  else if c = CHR ''+'' then unsigned_literal cs
                  else unsigned_literal t))"

subsection \<open>Arrays\<close>

text \<open>
  A JavaScript array can hold \<^verbatim>\<open>undefined\<close>, reads \<^verbatim>\<open>undefined\<close> past its end and grows
  when written past its end. \<open>js_index\<close> reads a list that has no holes (the frozen default
  palette, a theme's \<^verbatim>\<open>extendedAnsi\<close>); \<open>js_get\<close> and \<open>js_set\<close> read and write the
  mutable palette, whose entries are optional.
\<close>

definition js_index :: "'a list \<Rightarrow> nat \<Rightarrow> 'a option" where
  "js_index xs i = (if i < length xs then Some (xs ! i) else None)"

definition js_get :: "'a option list \<Rightarrow> nat \<Rightarrow> 'a option" where
  "js_get xs i = (if i < length xs then xs ! i else None)"

definition js_set :: "'a option list \<Rightarrow> nat \<Rightarrow> 'a option \<Rightarrow> 'a option list" where
  "js_set xs i v =
     (if i < length xs then xs[i := v] else xs @ replicate (i - length xs) None @ [v])"

section \<open>Colours and the colour library\<close>

text \<open>
  \<^verbatim>\<open>IColor\<close> (common/Types): a CSS string and the packed value \<^verbatim>\<open>0xRRGGBBAA\<close>.
\<close>

record IColor =
  css :: string
  rgba :: u32

text \<open>
  The functions of \<^verbatim>\<open>common/Color\<close> are imported by the file and are not part of it. The
  two whose results the specification leaves open are parameters of the model: every
  theorem holds for every choice of them.
  \<^item> \<open>toCss r g b a\<close> is \<^verbatim>\<open>channels.toCss(r, g, b, a?)\<close>, the CSS string of a colour;
  \<^item> \<open>blend bg fg\<close> is \<^verbatim>\<open>color.blend(bg, fg)\<close>, the colour of \<open>fg\<close> painted over \<open>bg\<close>.
\<close>

record color_lib =
  toCss :: "js_number \<Rightarrow> js_number \<Rightarrow> js_number \<Rightarrow> js_number option \<Rightarrow> string"
  blend :: "IColor \<Rightarrow> IColor \<Rightarrow> IColor"

definition toRgba :: "js_number \<Rightarrow> js_number \<Rightarrow> js_number \<Rightarrow> js_number \<Rightarrow> u32" where
  \<comment> \<open>Modelled from the spec: \<^verbatim>\<open>channels.toRgba\<close> of common/Color is not under src/. The
      spec gives \<^verbatim>\<open>toRgba(r,g,b[,a]) \<rightarrow> uint32\<close> and the layout \<^verbatim>\<open>0xRRGGBBAA\<close>, each
      channel 0-255; an absent \<open>a\<close> is \<^verbatim>\<open>0xFF\<close> (the callers that pass three channels
      build opaque colours). The channels are packed with the bitwise operators, so an
      operand that is not such an integer is converted as those operators convert it.\<close>
  "toRgba r g b a =
     push_bit 24 (ToInt32 r) OR push_bit 16 (ToInt32 g) OR push_bit 8 (ToInt32 b) OR ToInt32 a"

definition channel :: "nat \<Rightarrow> u32 \<Rightarrow> js_number" where
  \<comment> \<open>the byte of a packed colour that starts at a bit: 24 red, 16 green, 8 blue, 0 alpha\<close>
  "channel k w = Finite (of_nat (unat (drop_bit k w AND 0xFF)))"

definition isOpaque :: "IColor \<Rightarrow> bool" where
  \<comment> \<open>Modelled from the spec: \<^verbatim>\<open>color.isOpaque\<close> of common/Color is not under src/; a colour
      is opaque when its alpha channel, the low byte of \<^verbatim>\<open>0xRRGGBBAA\<close>, is \<^verbatim>\<open>0xFF\<close>.\<close>
  "isOpaque c = (rgba c AND 0xFF = 0xFF)"

definition opacity :: "color_lib \<Rightarrow> IColor \<Rightarrow> js_number \<Rightarrow> IColor" where
  \<comment> \<open>Modelled from the spec: \<^verbatim>\<open>color.opacity(color, alpha: float)\<close> of common/Color is not
      under src/; it gives the colour the fractional alpha, kept as the byte
      \<^verbatim>\<open>Math.round(alpha * 255)\<close> (the conversion of line 264, and the one that pairs
      \<^verbatim>\<open>0.3\<close> with \<^verbatim>\<open>0x4D\<close> in \<^verbatim>\<open>DEFAULT_SELECTION\<close>), and leaves red, green and blue.\<close>
  "opacity L c x =
     (let a = Math_round (js_mul x (Finite 255));
          r = channel 24 (rgba c); g = channel 16 (rgba c); b = channel 8 (rgba c)
      in \<lparr>css = toCss L r g b (Some a), rgba = toRgba r g b a\<rparr>)"

definition toColor :: "string \<Rightarrow> IColor" where
  \<comment> \<open>Modelled from the spec: \<^verbatim>\<open>css.toColor\<close> of common/Color is not under src/. The file
      calls it on literals \<^verbatim>\<open>#rrggbb\<close> only: the colour keeps the string and is opaque,
      \<^verbatim>\<open>0xRRGGBBFF\<close>.\<close>
  "toColor s =
     \<lparr>css = s,
      rgba = push_bit 8 (word_of_nat (case digits_value 16 0 (tl s) of None \<Rightarrow> 0 | Some n \<Rightarrow> n))
             OR 0xFF\<rparr>"

section \<open>The default colours (lines 21-76)\<close>

definition DEFAULT_FOREGROUND :: IColor where
  "DEFAULT_FOREGROUND = toColor ''#ffffff''"

definition DEFAULT_BACKGROUND :: IColor where
  "DEFAULT_BACKGROUND = toColor ''#000000''"

definition DEFAULT_CURSOR :: IColor where
  "DEFAULT_CURSOR = toColor ''#ffffff''"

definition DEFAULT_CURSOR_ACCENT :: IColor where
  "DEFAULT_CURSOR_ACCENT = toColor ''#000000''"

definition DEFAULT_SELECTION :: IColor where
  "DEFAULT_SELECTION = \<lparr>css = ''rgba(255, 255, 255, 0.3)'', rgba = 0xFFFFFF4D\<rparr>"

definition v :: "nat list" where
  "v = [0x00, 0x5f, 0x87, 0xaf, 0xd7, 0xff]"

definition cube_r :: "nat \<Rightarrow> int" where
  \<comment> \<open>\<^verbatim>\<open>(i / 36) % 6 | 0\<close>\<close>
  "cube_r i = bitor0 (js_rem (js_div (Finite (of_nat i)) (Finite 36)) (Finite 6))"

definition cube_g :: "nat \<Rightarrow> int" where
  \<comment> \<open>\<^verbatim>\<open>(i / 6) % 6 | 0\<close>\<close>
  "cube_g i = bitor0 (js_rem (js_div (Finite (of_nat i)) (Finite 6)) (Finite 6))"

definition cube_entry :: "color_lib \<Rightarrow> nat \<Rightarrow> IColor" where
  \<comment> \<open>lines 57-63; the three indices lie in 0..5 (\<open>cube_r_eq\<close>, \<open>cube_g_eq\<close>), inside \<open>v\<close>\<close>
  "cube_entry L i =
     (let r = Finite (of_nat (v ! nat (cube_r i)));
          g = Finite (of_nat (v ! nat (cube_g i)));
          b = Finite (of_nat (v ! (i mod 6)))
      in \<lparr>css = toCss L r g b None, rgba = toRgba r g b (Finite 0xFF)\<rparr>)"

function cube_loop :: "color_lib \<Rightarrow> nat \<Rightarrow> IColor list \<Rightarrow> IColor list" where
  \<comment> \<open>the loop of lines 56-64\<close>
  "cube_loop L i colors =
     (if i < 216 then cube_loop L (Suc i) (colors @ [cube_entry L i]) else colors)"
  by pat_completeness auto
termination
  by (relation "measure (\<lambda>(L, i, colors). 216 - i)") auto

definition grey_entry :: "color_lib \<Rightarrow> nat \<Rightarrow> IColor" where
  \<comment> \<open>lines 68-72\<close>
  "grey_entry L i =
     (let c = Finite (8 + of_nat i * 10)
      in \<lparr>css = toCss L c c c None, rgba = toRgba c c c (Finite 0xFF)\<rparr>)"

function grey_loop :: "color_lib \<Rightarrow> nat \<Rightarrow> IColor list \<Rightarrow> IColor list" where
  \<comment> \<open>the loop of lines 67-73\<close>
  "grey_loop L i colors =
     (if i < 24 then grey_loop L (Suc i) (colors @ [grey_entry L i]) else colors)"
  by pat_completeness auto
termination
  by (relation "measure (\<lambda>(L, i, colors). 24 - i)") auto

definition base_colors :: "IColor list" where
  \<comment> \<open>lines 32-51\<close>
  "base_colors =
     [toColor ''#2e3436'', toColor ''#cc0000'', toColor ''#4e9a06'', toColor ''#c4a000'',
      toColor ''#3465a4'', toColor ''#75507b'', toColor ''#06989a'', toColor ''#d3d7cf'',
      toColor ''#555753'', toColor ''#ef2929'', toColor ''#8ae234'', toColor ''#fce94f'',
      toColor ''#729fcf'', toColor ''#ad7fa8'', toColor ''#34e2e2'', toColor ''#eeeeec'']"

definition DEFAULT_ANSI_COLORS :: "color_lib \<Rightarrow> IColor list" where
  "DEFAULT_ANSI_COLORS L = grey_loop L 0 (cube_loop L 0 base_colors)"

section \<open>The colour manager (lines 81-279)\<close>

subsection \<open>The validation surface\<close>

text \<open>
  \<^verbatim>\<open>_parseColor\<close> asks the canvas context about a string: it sets \<^verbatim>\<open>fillStyle\<close> to a
  gradient and then to the string, and a string the engine rejects leaves the gradient in
  place (lines 225-230). Otherwise \<^verbatim>\<open>fillStyle\<close> reads back as the engine's serialisation
  of the colour, and the one pixel painted with it (composite operation \<^verbatim>\<open>copy\<close>) holds
  the four channel bytes. The context is therefore a function from the string to nothing,
  or to the serialisation and the pixel.
\<close>

record canvas_result =
  fillStyle :: string
  data_0 :: u8
  data_1 :: u8
  data_2 :: u8
  data_3 :: u8

type_synonym canvas_context = "string \<Rightarrow> canvas_result option"

subsection \<open>Data\<close>

text \<open>
  \<^verbatim>\<open>ITheme\<close> (common/services/Services): every field is optional. The field names carry the
  prefix \<open>theme_\<close>, since the colour set has fields of the same names.
\<close>

record ITheme =
  theme_foreground :: "string option"
  theme_background :: "string option"
  theme_cursor :: "string option"
  theme_cursorAccent :: "string option"
  theme_selection :: "string option"
  theme_selectionForeground :: "string option"
  theme_black :: "string option"
  theme_red :: "string option"
  theme_green :: "string option"
  theme_yellow :: "string option"
  theme_blue :: "string option"
  theme_magenta :: "string option"
  theme_cyan :: "string option"
  theme_white :: "string option"
  theme_brightBlack :: "string option"
  theme_brightRed :: "string option"
  theme_brightGreen :: "string option"
  theme_brightYellow :: "string option"
  theme_brightBlue :: "string option"
  theme_brightMagenta :: "string option"
  theme_brightCyan :: "string option"
  theme_brightWhite :: "string option"
  theme_extendedAnsi :: "string list option"

text \<open>
  \<^verbatim>\<open>IColorSet\<close> (browser/Types). Its \<^verbatim>\<open>contrastCache\<close> is a reference to the manager's own
  cache object, kept once, in the manager. An entry of \<open>ansi\<close> is optional: the array can
  come to hold \<^verbatim>\<open>undefined\<close> (line 200 with a slot past the snapshot).
\<close>

record IColorSet =
  foreground :: IColor
  background :: IColor
  cursor :: IColor
  cursorAccent :: IColor
  selectionTransparent :: IColor
  selectionOpaque :: IColor
  selectionForeground :: "IColor option"
  ansi :: "IColor option list"

text \<open>\<^verbatim>\<open>IRestoreColorSet\<close> (lines 13-18), its fields prefixed with \<open>restore_\<close>.\<close>

record IRestoreColorSet =
  restore_foreground :: IColor
  restore_background :: IColor
  restore_cursor :: IColor
  restore_ansi :: "IColor option list"

text \<open>
  Modelled from the spec: \<^verbatim>\<open>ColorContrastCache\<close> (browser/ColorContrastCache) is not
  under src/. The spec describes a mapping keyed by a pair of colours to a cached contrast
  computation, with \<^verbatim>\<open>clear\<close>, \<^verbatim>\<open>get\<close> and \<^verbatim>\<open>set\<close>; the renderers that share the
  object through \<^verbatim>\<open>colors.contrastCache\<close> fill it.
\<close>

type_synonym ColorContrastCache = "u32 \<times> u32 \<rightharpoonup> IColor"

definition cache_clear :: ColorContrastCache where
  "cache_clear = Map.empty"

definition cache_set :: "u32 \<times> u32 \<Rightarrow> IColor \<Rightarrow> ColorContrastCache \<Rightarrow> ColorContrastCache" where
  "cache_set k c m = m(k \<mapsto> c)"

text \<open>
  Modelled from the spec: \<^verbatim>\<open>ColorIndex\<close> (common/Types) is not under src/. A slot is one
  of the three reserved indices for foreground, background and cursor, or any other
  number, which \<^verbatim>\<open>restoreColor\<close> takes as an index of the palette.
\<close>

datatype ColorIndex = FOREGROUND | BACKGROUND | CURSOR | AnsiIndex nat

text \<open>
  The manager: its fields (lines 82-88; \<open>ctx\<close> is \<^verbatim>\<open>_ctx\<close>, \<open>contrastCache\<close> is
  \<^verbatim>\<open>_contrastCache\<close>, \<open>restoreColors\<close> is \<^verbatim>\<open>_restoreColors\<close>), and \<open>console\<close>, the lines
  written with \<^verbatim>\<open>console.warn\<close> so far, oldest first.
\<close>

record ColorManager =
  colors :: IColorSet
  allowTransparency :: bool
  ctx :: canvas_context
  contrastCache :: ColorContrastCache
  restoreColors :: IRestoreColorSet
  console :: "string list"

subsection \<open>\<^verbatim>\<open>_updateRestoreColors\<close> (lines 204-211) and the constructor (lines 88-112)\<close>

definition updateRestoreColors :: "ColorManager \<Rightarrow> ColorManager" where
  "updateRestoreColors s =
     s\<lparr>restoreColors :=
         \<lparr>restore_foreground = foreground (colors s),
          restore_background = background (colors s),
          restore_cursor = cursor (colors s),
          restore_ansi = ansi (colors s)\<rparr>\<rparr>"

definition constructed :: "color_lib \<Rightarrow> canvas_context \<Rightarrow> bool \<Rightarrow> ColorManager" where
  \<comment> \<open>lines 96-111: the manager a successful construction leaves. \<^verbatim>\<open>_restoreColors\<close> has no
      value before line 111 sets it; the record needs one, which line 111 overwrites.\<close>
  "constructed L c allowTransparency' =
     updateRestoreColors
       \<lparr>colors =
          \<lparr>foreground = DEFAULT_FOREGROUND,
           background = DEFAULT_BACKGROUND,
           cursor = DEFAULT_CURSOR,
           cursorAccent = DEFAULT_CURSOR_ACCENT,
           selectionTransparent = DEFAULT_SELECTION,
           selectionOpaque = blend L DEFAULT_BACKGROUND DEFAULT_SELECTION,
           selectionForeground = None,
           ansi = map Some (DEFAULT_ANSI_COLORS L)\<rparr>,
        allowTransparency = allowTransparency',
        ctx = c,
        contrastCache = cache_clear,
        restoreColors =
          \<lparr>restore_foreground = DEFAULT_FOREGROUND,
           restore_background = DEFAULT_BACKGROUND,
           restore_cursor = DEFAULT_CURSOR,
           restore_ansi = []\<rparr>,
        console = []\<rparr>"

definition new_ColorManager ::
    "color_lib \<Rightarrow> canvas_context option \<Rightarrow> bool \<Rightarrow> js_error + ColorManager" where
  \<comment> \<open>\<open>None\<close> for the context: \<^verbatim>\<open>canvas.getContext('2d')\<close> gave none (lines 92-95)\<close>
  "new_ColorManager L context allowTransparency' =
     (case context of
        None \<Rightarrow> Inl (Error ''Could not get rendering context'')
      | Some c \<Rightarrow> Inr (constructed L c allowTransparency'))"

subsection \<open>\<^verbatim>\<open>onOptionsChange\<close> (lines 114-123)\<close>

definition onOptionsChange :: "string \<Rightarrow> bool \<Rightarrow> ColorManager \<Rightarrow> ColorManager" where
  \<comment> \<open>\<open>value\<close> is \<^verbatim>\<open>any\<close> in the source; its only reader (line 237) takes its truth value\<close>
  "onOptionsChange key value s =
     (if key = ''minimumContrastRatio'' then s\<lparr>contrastCache := cache_clear\<rparr>
      else if key = ''allowTransparency'' then s\<lparr>allowTransparency := value\<rparr>
      else s)"

subsection \<open>\<^verbatim>\<open>_parseColor\<close> (lines 213-278)\<close>

definition warn_invalid :: "string \<Rightarrow> string \<Rightarrow> string" where
  \<comment> \<open>the message of line 228, from the string and \<^verbatim>\<open>fallback.css\<close>\<close>
  "warn_invalid c fallback_css = ''Color: '' @ c @ '' is invalid using fallback '' @ fallback_css"

definition warn_transparency :: "string \<Rightarrow> string \<Rightarrow> string" where
  \<comment> \<open>the message of lines 254-257\<close>
  "warn_transparency c fallback_css =
     ''Color: '' @ c @ '' is using transparency, but allowTransparency is false. ''
       @ ''Using fallback '' @ fallback_css @ ''.''"

definition destructure :: "js_number list \<Rightarrow> nat \<Rightarrow> js_number" where
  \<comment> \<open>an element taken by the pattern \<^verbatim>\<open>[r, g, b, a]\<close>. A missing one is \<^verbatim>\<open>undefined\<close>, which
      the multiplication of line 264 and the bitwise operators convert exactly as they
      convert NaN.\<close>
  "destructure xs i = (if i < length xs then xs ! i else NaN)"

definition transparent_color :: "string \<Rightarrow> string \<Rightarrow> IColor" where
  \<comment> \<open>lines 263-269, from the serialised \<^verbatim>\<open>fillStyle\<close> and the string that was parsed\<close>
  "transparent_color style c =
     (let xs = map Number (split CHR '','' (substring style 5 (int (length style) - 1)));
          alpha = Math_round (js_mul (destructure xs 3) (Finite 255))
      in \<lparr>css = c,
          rgba = toRgba (destructure xs 0) (destructure xs 1) (destructure xs 2) alpha\<rparr>)"

definition opaque_color :: "canvas_result \<Rightarrow> IColor" where
  \<comment> \<open>lines 272-277\<close>
  "opaque_color res =
     \<lparr>css = fillStyle res,
      rgba = toRgba (Finite (of_nat (unat (data_0 res)))) (Finite (of_nat (unat (data_1 res))))
               (Finite (of_nat (unat (data_2 res)))) (Finite (of_nat (unat (data_3 res))))\<rparr>"

definition parseColor ::
    "canvas_context \<Rightarrow> string option \<Rightarrow> IColor \<Rightarrow> bool \<Rightarrow> IColor \<times> string list" where
  \<comment> \<open>the colour returned, and the lines written to the console\<close>
  "parseColor context css' fallback allowTransparency' =
     (case css' of
        None \<Rightarrow> (fallback, [])
      | Some c \<Rightarrow>
          (case context c of
             None \<Rightarrow> (fallback, [warn_invalid c (css fallback)])
           | Some res \<Rightarrow>
               if data_3 res \<noteq> 0xFF then
                 (if allowTransparency' then (transparent_color (fillStyle res) c, [])
                  else (fallback, [warn_transparency c (css fallback)]))
               else (opaque_color res, [])))"

definition parseColor_undefined ::
    "canvas_context \<Rightarrow> string option \<Rightarrow> bool \<Rightarrow> js_error + IColor option" where
  \<comment> \<open>\<^verbatim>\<open>_parseColor\<close> called with \<^verbatim>\<open>undefined\<close> for its fallback, which line 173 does when
      \<^verbatim>\<open>i\<close> is past the default palette: the same branches, where returning the fallback
      returns \<^verbatim>\<open>undefined\<close> and building a message from \<^verbatim>\<open>fallback.css\<close> throws a
      TypeError before anything is written\<close>
  "parseColor_undefined context css' allowTransparency' =
     (case css' of
        None \<Rightarrow> Inr None
      | Some c \<Rightarrow>
          (case context c of
             None \<Rightarrow> Inl TypeError
           | Some res \<Rightarrow>
               if data_3 res \<noteq> 0xFF then
                 (if allowTransparency' then Inr (Some (transparent_color (fillStyle res) c))
                  else Inl TypeError)
               else Inr (Some (opaque_color res))))"

subsection \<open>\<^verbatim>\<open>setTheme\<close> (lines 130-179)\<close>

definition assign ::
    "(IColor \<Rightarrow> IColorSet \<Rightarrow> IColorSet) \<Rightarrow> string option \<Rightarrow> IColor \<Rightarrow> bool \<Rightarrow>
     ColorManager \<Rightarrow> ColorManager" where
  \<comment> \<open>a statement \<^verbatim>\<open>this.colors.x = this._parseColor(css, fallback, allowTransparency)\<close>:
      \<open>put\<close> stores the colour, the warnings go to the console\<close>
  "assign put css' fallback allowTransparency' s =
     (case parseColor (ctx s) css' fallback allowTransparency' of
        (c, w) \<Rightarrow> s\<lparr>colors := put c (colors s), console := console s @ w\<rparr>)"

definition put_ansi :: "nat \<Rightarrow> IColor \<Rightarrow> IColorSet \<Rightarrow> IColorSet" where
  \<comment> \<open>\<^verbatim>\<open>this.colors.ansi[i] = c\<close>\<close>
  "put_ansi i c cs = cs\<lparr>ansi := js_set (ansi cs) i (Some c)\<rparr>"

definition nullColor :: IColor where
  \<comment> \<open>lines 137-140\<close>
  "nullColor = \<lparr>css = [], rgba = 0\<rparr>"

definition opacity_literal :: js_number where
  \<comment> \<open>the literal \<^verbatim>\<open>0.3\<close> of line 151: the double nearest to 3/10\<close>
  "opacity_literal = fl (3 / 10)"

definition setTheme_selection :: "color_lib \<Rightarrow> ITheme \<Rightarrow> ColorManager \<Rightarrow> ColorManager" where
  \<comment> \<open>lines 135-153. A string is truthy when it is not empty (line 141). Line 142 compares
      references: it holds when \<^verbatim>\<open>_parseColor\<close> handed back \<^verbatim>\<open>nullColor\<close> itself. A colour
      that \<^verbatim>\<open>_parseColor\<close> builds differs from \<open>nullColor\<close> in a field
      (\<open>parseColor_nullColor\<close>), so equality of the values decides the same.\<close>
  "setTheme_selection L theme s4 =
     (let s5 = assign (\<lambda>c cs. cs\<lparr>selectionTransparent := c\<rparr>) (theme_selection theme)
                 DEFAULT_SELECTION True s4;
          s6 = s5\<lparr>colors := (colors s5)\<lparr>selectionOpaque :=
                 blend L (background (colors s5)) (selectionTransparent (colors s5))\<rparr>\<rparr>;
          s7 = (case theme_selectionForeground theme of
                  None \<Rightarrow> s6\<lparr>colors := (colors s6)\<lparr>selectionForeground := None\<rparr>\<rparr>
                | Some str \<Rightarrow>
                    if str = [] then s6\<lparr>colors := (colors s6)\<lparr>selectionForeground := None\<rparr>\<rparr>
                    else assign (\<lambda>c cs. cs\<lparr>selectionForeground := Some c\<rparr>) (Some str)
                           nullColor (allowTransparency s6) s6);
          s8 = (if selectionForeground (colors s7) = Some nullColor
                then s7\<lparr>colors := (colors s7)\<lparr>selectionForeground := None\<rparr>\<rparr> else s7)
      in if isOpaque (selectionTransparent (colors s8))
         then s8\<lparr>colors := (colors s8)\<lparr>selectionTransparent :=
                opacity L (selectionTransparent (colors s8)) opacity_literal\<rparr>\<rparr>
         else s8)"

definition theme_ansi :: "ITheme \<Rightarrow> string option list" where
  \<comment> \<open>the sixteen theme fields that lines 154-169 read, in the order of the lines\<close>
  "theme_ansi theme =
     [theme_black theme, theme_red theme, theme_green theme, theme_yellow theme,
      theme_blue theme, theme_magenta theme, theme_cyan theme, theme_white theme,
      theme_brightBlack theme, theme_brightRed theme, theme_brightGreen theme,
      theme_brightYellow theme, theme_brightBlue theme, theme_brightMagenta theme,
      theme_brightCyan theme, theme_brightWhite theme]"

fun setTheme_ansi :: "color_lib \<Rightarrow> string option list \<Rightarrow> nat \<Rightarrow> ColorManager \<Rightarrow> ColorManager" where
  \<comment> \<open>lines 154-169, one statement
      \<^verbatim>\<open>this.colors.ansi[i] = this._parseColor(theme.name, DEFAULT_ANSI_COLORS[i])\<close>
      for each field of the list, \<open>i\<close> counting from the index given. The indices 0..15 lie
      inside the default palette, which has 256 entries (\<open>length_DEFAULT_ANSI_COLORS\<close>).\<close>
  "setTheme_ansi L [] i s = s"
| "setTheme_ansi L (c # cs) i s =
     setTheme_ansi L cs (Suc i)
       (assign (put_ansi i) c (DEFAULT_ANSI_COLORS L ! i) (allowTransparency s) s)"

definition setTheme_fixed :: "color_lib \<Rightarrow> ITheme \<Rightarrow> ColorManager \<Rightarrow> ColorManager" where
  \<comment> \<open>lines 131-169, a statement after the other\<close>
  "setTheme_fixed L theme s0 =
     (let s1 = assign (\<lambda>c cs. cs\<lparr>foreground := c\<rparr>) (theme_foreground theme)
                 DEFAULT_FOREGROUND (allowTransparency s0) s0;
          s2 = assign (\<lambda>c cs. cs\<lparr>background := c\<rparr>) (theme_background theme)
                 DEFAULT_BACKGROUND (allowTransparency s1) s1;
          s3 = assign (\<lambda>c cs. cs\<lparr>cursor := c\<rparr>) (theme_cursor theme) DEFAULT_CURSOR True s2;
          s4 = assign (\<lambda>c cs. cs\<lparr>cursorAccent := c\<rparr>) (theme_cursorAccent theme)
                 DEFAULT_CURSOR_ACCENT True s3;
          s9 = setTheme_selection L theme s4
      in setTheme_ansi L (theme_ansi theme) 0 s9)"

function extendedAnsi_loop ::
    "color_lib \<Rightarrow> string list \<Rightarrow> nat \<Rightarrow> nat \<Rightarrow> ColorManager \<Rightarrow> completion \<times> ColorManager" where
  \<comment> \<open>the loop of lines 172-174 from \<open>i\<close> on, with the state it leaves when it throws\<close>
  "extendedAnsi_loop L extendedAnsi colorCount i s =
     (if i < colorCount then
        (case js_index (DEFAULT_ANSI_COLORS L) i of
           Some fallback \<Rightarrow>
             extendedAnsi_loop L extendedAnsi colorCount (Suc i)
               (assign (put_ansi i) (js_index extendedAnsi (i - 16)) fallback
                  (allowTransparency s) s)
         | None \<Rightarrow>
             (case parseColor_undefined (ctx s) (js_index extendedAnsi (i - 16))
                     (allowTransparency s) of
                Inl e \<Rightarrow> (Throw e, s)
              | Inr c \<Rightarrow>
                  extendedAnsi_loop L extendedAnsi colorCount (Suc i)
                    (s\<lparr>colors := (colors s)\<lparr>ansi := js_set (ansi (colors s)) i c\<rparr>\<rparr>)))
      else (Normal, s))"
  by pat_completeness auto
termination
  by (relation "measure (\<lambda>(L, extendedAnsi, colorCount, i, s). colorCount - i)") auto

definition setTheme_colors ::
    "color_lib \<Rightarrow> ITheme \<Rightarrow> ColorManager \<Rightarrow> completion \<times> ColorManager" where
  \<comment> \<open>lines 131-175: how they complete, and the manager they leave. An array is truthy
      (line 170), an empty one too.\<close>
  "setTheme_colors L theme s =
     (let s1 = setTheme_fixed L theme s
      in case theme_extendedAnsi theme of
           None \<Rightarrow> (Normal, s1)
         | Some extendedAnsi \<Rightarrow>
             extendedAnsi_loop L extendedAnsi (max (length extendedAnsi + 16) 256) 16 s1)"

definition setTheme :: "color_lib \<Rightarrow> ITheme \<Rightarrow> ColorManager \<Rightarrow> completion \<times> ColorManager" where
  \<comment> \<open>how the call completes, and the manager it leaves. A call that throws leaves what it
      had written and reaches neither line 177 nor line 178.\<close>
  "setTheme L theme s =
     (case setTheme_colors L theme s of
        (Normal, s2) \<Rightarrow> (Normal, updateRestoreColors (s2\<lparr>contrastCache := cache_clear\<rparr>))
      | (Throw e, s2) \<Rightarrow> (Throw e, s2))"

definition empty_theme :: ITheme where
  \<comment> \<open>\<^verbatim>\<open>{}\<close>, also the default of the parameter\<close>
  "empty_theme =
     \<lparr>theme_foreground = None, theme_background = None, theme_cursor = None,
      theme_cursorAccent = None, theme_selection = None, theme_selectionForeground = None,
      theme_black = None, theme_red = None, theme_green = None, theme_yellow = None,
      theme_blue = None, theme_magenta = None, theme_cyan = None, theme_white = None,
      theme_brightBlack = None, theme_brightRed = None, theme_brightGreen = None,
      theme_brightYellow = None, theme_brightBlue = None, theme_brightMagenta = None,
      theme_brightCyan = None, theme_brightWhite = None, theme_extendedAnsi = None\<rparr>"

subsection \<open>\<^verbatim>\<open>restoreColor\<close> (lines 181-202)\<close>

function restore_loop :: "nat \<Rightarrow> ColorManager \<Rightarrow> ColorManager" where
  \<comment> \<open>the loop of lines 184-186 from \<open>i\<close> on\<close>
  "restore_loop i s =
     (if i < length (restore_ansi (restoreColors s)) then
        restore_loop (Suc i)
          (s\<lparr>colors := (colors s)\<lparr>ansi :=
               js_set (ansi (colors s)) i (restore_ansi (restoreColors s) ! i)\<rparr>\<rparr>)
      else s)"
  by pat_completeness auto
termination
  by (relation "measure (\<lambda>(i, s). length (restore_ansi (restoreColors s)) - i)") auto

definition restoreColor :: "ColorIndex option \<Rightarrow> ColorManager \<Rightarrow> ColorManager" where
  "restoreColor slot s =
     (case slot of
        None \<Rightarrow> restore_loop 0 s
      | Some FOREGROUND \<Rightarrow>
          s\<lparr>colors := (colors s)\<lparr>foreground := restore_foreground (restoreColors s)\<rparr>\<rparr>
      | Some BACKGROUND \<Rightarrow>
          s\<lparr>colors := (colors s)\<lparr>background := restore_background (restoreColors s)\<rparr>\<rparr>
      | Some CURSOR \<Rightarrow>
          s\<lparr>colors := (colors s)\<lparr>cursor := restore_cursor (restoreColors s)\<rparr>\<rparr>
      | Some (AnsiIndex n) \<Rightarrow>
          s\<lparr>colors := (colors s)\<lparr>ansi :=
               js_set (ansi (colors s)) n (js_get (restore_ansi (restoreColors s)) n)\<rparr>\<rparr>)"

subsection \<open>Sequences of calls\<close>

text \<open>
  The calls a manager receives: its three public methods, and a renderer storing a
  contrast result in the cache it shares.
\<close>

datatype operation =
    SetTheme ITheme
  | RestoreColor "ColorIndex option"
  | OnOptionsChange string bool
  | CacheSet "u32 \<times> u32" IColor

definition step :: "color_lib \<Rightarrow> operation \<Rightarrow> ColorManager \<Rightarrow> ColorManager" where
  "step L op s =
     (case op of
        SetTheme theme \<Rightarrow> snd (setTheme L theme s)
      | RestoreColor slot \<Rightarrow> restoreColor slot s
      | OnOptionsChange key value \<Rightarrow> onOptionsChange key value s
      | CacheSet k c \<Rightarrow> s\<lparr>contrastCache := cache_set k c (contrastCache s)\<rparr>)"

definition run :: "color_lib \<Rightarrow> operation list \<Rightarrow> ColorManager \<Rightarrow> ColorManager" where
  "run L ops s = foldl (\<lambda>s op. step L op s) s ops"

text \<open>
  Two kinds of calls, to state where the palette keeps its size and where the snapshot
  stays: a call inside the palette gives \<^verbatim>\<open>extendedAnsi\<close> at most the 240 entries of the
  slots 16..255 and restores no slot past 255; a call is \<open>no_setTheme\<close> when it is any
  call but \<^verbatim>\<open>setTheme\<close>.
\<close>

definition in_palette :: "operation \<Rightarrow> bool" where
  "in_palette op =
     (case op of
        SetTheme theme \<Rightarrow>
          (case theme_extendedAnsi theme of None \<Rightarrow> True | Some xs \<Rightarrow> length xs \<le> 240)
      | RestoreColor slot \<Rightarrow> (case slot of Some (AnsiIndex n) \<Rightarrow> n < 256 | _ \<Rightarrow> True)
      | _ \<Rightarrow> True)"

definition full_palette :: "IColor option list \<Rightarrow> bool" where
  \<comment> \<open>exactly 256 entries, each a colour\<close>
  "full_palette xs = (length xs = 256 \<and> list_all (\<lambda>x. x \<noteq> None) xs)"


section \<open>An example host\<close>

text \<open>
  A colour library and a canvas context to run the manager on: \<open>example_lib\<close> writes an
  opaque colour as \<^verbatim>\<open>#rrggbb\<close> and blends channel by channel; \<open>example_context\<close> knows a
  few strings and answers as a browser does, and rejects every other string.
\<close>

definition example_hex :: "js_number \<Rightarrow> string" where
  "example_hex x =
     (case x of
        Finite q \<Rightarrow> [''0123456789abcdef'' ! (nat (trunc q) div 16 mod 16),
                     ''0123456789abcdef'' ! (nat (trunc q) mod 16)]
      | _ \<Rightarrow> ''00'')"

definition example_blend :: "IColor \<Rightarrow> IColor \<Rightarrow> IColor" where
  "example_blend bg fg =
     (if isOpaque fg then fg
      else let a = of_nat (unat (rgba fg AND 0xFF)) / 255;
               mix = (\<lambda>k. case (channel k (rgba bg), channel k (rgba fg)) of
                             (Finite x, Finite y) \<Rightarrow> Finite (of_int \<lfloor>x + (y - x) * a + 1 / 2\<rfloor>)
                           | _ \<Rightarrow> NaN)
           in \<lparr>css = ''#'' @ example_hex (mix 24) @ example_hex (mix 16) @ example_hex (mix 8),
               rgba = toRgba (mix 24) (mix 16) (mix 8) (Finite 0xFF)\<rparr>)"

definition example_lib :: color_lib where
  "example_lib =
     \<lparr>toCss = (\<lambda>r g b a. ''#'' @ example_hex r @ example_hex g @ example_hex b
                        @ (case a of None \<Rightarrow> [] | Some x \<Rightarrow> example_hex x)),
      blend = example_blend\<rparr>"

definition example_context :: canvas_context where
  "example_context =
     map_of
       [(''#ffffff'', \<lparr>fillStyle = ''#ffffff'', data_0 = 255, data_1 = 255, data_2 = 255, data_3 = 255\<rparr>),
        (''#FFFFFF'', \<lparr>fillStyle = ''#ffffff'', data_0 = 255, data_1 = 255, data_2 = 255, data_3 = 255\<rparr>),
        (''white'', \<lparr>fillStyle = ''#ffffff'', data_0 = 255, data_1 = 255, data_2 = 255, data_3 = 255\<rparr>),
        (''#336699'', \<lparr>fillStyle = ''#336699'', data_0 = 0x33, data_1 = 0x66, data_2 = 0x99, data_3 = 255\<rparr>),
        (''rgba(255, 255, 255, 0.3)'',
           \<lparr>fillStyle = ''rgba(255, 255, 255, 0.3)'', data_0 = 255, data_1 = 255, data_2 = 255, data_3 = 77\<rparr>),
        (''RGBA(0,0,255,.5)'',
           \<lparr>fillStyle = ''rgba(0, 0, 255, 0.5)'', data_0 = 0, data_1 = 0, data_2 = 255, data_3 = 128\<rparr>)]"

definition example_manager :: ColorManager where
  \<comment> \<open>the manager \<^verbatim>\<open>new ColorManager(document, false)\<close> builds on the example host\<close>
  "example_manager = constructed example_lib example_context False"

section \<open>Properties of \<^verbatim>\<open>_parseColor\<close>\<close>

text \<open>
  C5. \<^verbatim>\<open>_parseColor\<close> returns a colour in every case (its model has no error value, and
  no branch of lines 213-278 throws when the fallback is a colour), and it falls back on
  every failure: without a string it returns the fallback and asks the context nothing
  (the equation holds whatever the context is) and writes nothing; for a string the
  engine rejects, and for an accepted string whose pixel is not fully opaque when
  transparency is not allowed, it returns the fallback unchanged and writes one
  diagnostic to the console.
\<close>

theorem parseColor_falls_back:
  "parseColor context None fallback allowTransparency' = (fallback, []) \<and>
   (context c = None \<longrightarrow>
      parseColor context (Some c) fallback allowTransparency'
        = (fallback, [warn_invalid c (css fallback)])) \<and>
   (context c = Some res \<and> data_3 res \<noteq> 0xFF \<longrightarrow>
      parseColor context (Some c) fallback False
        = (fallback, [warn_transparency c (css fallback)]))"
  by (simp add: parseColor_def)

theorem parseColor_falls_back_witness:
  "parseColor example_context None DEFAULT_CURSOR True = (DEFAULT_CURSOR, []) \<and>
   example_context ''not-a-color'' = None \<and>
   parseColor example_context (Some ''not-a-color'') DEFAULT_CURSOR True
     = (DEFAULT_CURSOR, [''Color: not-a-color is invalid using fallback #ffffff'']) \<and>
   example_context ''rgba(255, 255, 255, 0.3)''
     = Some \<lparr>fillStyle = ''rgba(255, 255, 255, 0.3)'', data_0 = 255, data_1 = 255,
             data_2 = 255, data_3 = 77\<rparr> \<and>
   parseColor example_context (Some ''rgba(255, 255, 255, 0.3)'') DEFAULT_CURSOR False
     = (DEFAULT_CURSOR,
        [''Color: rgba(255, 255, 255, 0.3) is using transparency, but allowTransparency is false. Using fallback #ffffff.''])"
  using parseColor_falls_back [of example_context DEFAULT_CURSOR True "''not-a-color''"]
    parseColor_falls_back [of example_context DEFAULT_CURSOR True "''rgba(255, 255, 255, 0.3)''"
      "\<lparr>fillStyle = ''rgba(255, 255, 255, 0.3)'', data_0 = 255, data_1 = 255,
        data_2 = 255, data_3 = 77\<rparr>"]
  by (simp add: example_context_def warn_invalid_def warn_transparency_def DEFAULT_CURSOR_def
      toColor_def)

section \<open>Doubles: the rounding \<open>fl\<close>\<close>

text \<open>
  \<open>floor_log2\<close> is the binary exponent, so \<open>fl\<close> rounds on the grid of the doubles
  around its argument; a rational between two points of that grid rounds between them.
\<close>

lemma pow2_powi: "pow2 k = 2 powi k"
  by (simp add: pow2_def power_int_def inverse_eq_divide power_one_over)

lemma pow2_pos [simp]: "0 < pow2 k"
  by (simp add: pow2_powi)

lemma pow2_add: "pow2 (a + b) = pow2 a * pow2 b"
  by (simp add: pow2_powi power_int_add)

lemma pow2_less_iff [simp]: "pow2 a < pow2 b \<longleftrightarrow> a < b"
proof
  assume h: "pow2 a < pow2 b"
  show "a < b"
  proof (rule ccontr)
    assume "\<not> a < b"
    then have "b \<le> a" by simp
    then have "(2::rat) powi b \<le> 2 powi a" by (rule power_int_increasing) simp
    with h show False by (simp add: pow2_powi)
  qed
next
  assume "a < b"
  then have "(2::rat) powi a < 2 powi b" by (rule power_int_strict_increasing) simp
  then show "pow2 a < pow2 b" by (simp add: pow2_powi)
qed

lemma pow2_le_iff [simp]: "pow2 a \<le> pow2 b \<longleftrightarrow> a \<le> b"
  by (metis pow2_less_iff not_less)

lemma pow2_nat: "0 \<le> k \<Longrightarrow> pow2 k = of_int (2 ^ nat k)"
  by (simp add: pow2_def)

lemma floor_log2_bounds:
  assumes "0 < x"
  shows "pow2 (floor_log2 x) \<le> x \<and> x < pow2 (floor_log2 x + 1)"
proof (cases "1 \<le> x")
  case True
  define n where "n = \<lfloor>x\<rfloor>"
  have n: "0 < n" using True by (simp add: n_def)
  have b: "2 ^ nat (bitlen n - 1) \<le> n \<and> n < 2 ^ nat (bitlen n)"
    using bitlen_bounds [OF n] .
  have ge1: "1 \<le> bitlen n" using n by (simp add: bitlen_alt_def)
  have e: "floor_log2 x = bitlen n - 1" using True by (simp add: floor_log2_def n_def)
  have "pow2 (bitlen n - 1) = of_int (2 ^ nat (bitlen n - 1))"
    using ge1 by (simp add: pow2_nat)
  also have "\<dots> \<le> of_int n" using b by (simp only: of_int_le_iff)
  also have "\<dots> \<le> x" by (simp add: n_def)
  finally have lo: "pow2 (bitlen n - 1) \<le> x" .
  have "n + 1 \<le> 2 ^ nat (bitlen n)" using b by simp
  then have "(of_int (n + 1) :: rat) \<le> of_int (2 ^ nat (bitlen n))" by (simp only: of_int_le_iff)
  moreover have "x < of_int (n + 1)" using floor_correct [of x] by (simp add: n_def)
  moreover have "pow2 (bitlen n) = of_int (2 ^ nat (bitlen n))" using ge1 by (simp add: pow2_nat)
  ultimately have "x < pow2 (bitlen n)" by simp
  with lo e show ?thesis by simp
next
  case False
  define y where "y = 1 / x"
  define m where "m = \<lceil>y\<rceil> - 1"
  have y1: "1 < y" using False assms by (simp add: y_def)
  then have "2 \<le> \<lceil>y\<rceil>" by (simp add: le_ceiling_iff) 
  then have m: "0 < m" by (simp add: m_def)
  have b: "2 ^ nat (bitlen m - 1) \<le> m \<and> m < 2 ^ nat (bitlen m)"
    using bitlen_bounds [OF m] .
  have ge1: "1 \<le> bitlen m" using m by (simp add: bitlen_alt_def)
  have e: "floor_log2 x = - bitlen m" using False by (simp add: floor_log2_def m_def y_def)
  have my: "of_int m < y" "y \<le> of_int (m + 1)"
    unfolding m_def by (simp_all add: ceiling_correct)
  have "y \<le> of_int (m + 1)" by fact
  also have "(of_int (m + 1) :: rat) \<le> of_int (2 ^ nat (bitlen m))"
    using b by (simp only: of_int_le_iff) simp
  also have "\<dots> = pow2 (bitlen m)" using ge1 by (simp add: pow2_nat)
  finally have hi: "y \<le> pow2 (bitlen m)" .
  have "pow2 (bitlen m - 1) = of_int (2 ^ nat (bitlen m - 1))" using ge1 by (simp add: pow2_nat)
  also have "\<dots> \<le> of_int m" using b by (simp only: of_int_le_iff)
  also have "\<dots> < y" by fact
  finally have lo: "pow2 (bitlen m - 1) < y" .
  have xy: "x = 1 / y" by (simp add: y_def)
  have y0: "0 < y" using y1 by simp
  have p: "pow2 (- bitlen m) = 1 / pow2 (bitlen m)"
    by (simp add: pow2_powi power_int_minus_divide)
  have q: "pow2 (- bitlen m + 1) = 1 / pow2 (bitlen m - 1)"
    using power_int_minus_divide [of "2::rat" "bitlen m - 1"] by (simp add: pow2_powi)
  have "pow2 (- bitlen m) \<le> x"
    unfolding p xy using hi y0 by (simp add: frac_le)
  moreover have "x < pow2 (- bitlen m + 1)"
    unfolding q xy using lo y0 by (simp add: frac_less2)
  ultimately show ?thesis using e by simp
qed

lemma floor_log2_unique:
  assumes "0 < x" "pow2 e \<le> x" "x < pow2 (e + 1)"
  shows "floor_log2 x = e"
proof -
  from floor_log2_bounds [OF assms(1)]
  have a: "pow2 (floor_log2 x) \<le> x" and b: "x < pow2 (floor_log2 x + 1)" by simp_all
  from a assms(3) have "pow2 (floor_log2 x) < pow2 (e + 1)" by (rule le_less_trans)
  moreover from assms(2) b have "pow2 e < pow2 (floor_log2 x + 1)" by (rule le_less_trans)
  ultimately show ?thesis by simp
qed


lemma round_half_even_le: "x \<le> of_int k \<Longrightarrow> round_half_even x \<le> k"
proof -
  assume h: "x \<le> of_int k"
  have f: "of_int \<lfloor>x\<rfloor> \<le> x" by simp
  have "\<lfloor>x\<rfloor> \<le> k" using h by (simp add: floor_le_iff)
  moreover have "x - of_int \<lfloor>x\<rfloor> \<noteq> 0 \<Longrightarrow> \<lfloor>x\<rfloor> + 1 \<le> k"
  proof -
    assume "x - of_int \<lfloor>x\<rfloor> \<noteq> 0"
    with f have "of_int \<lfloor>x\<rfloor> < x" by linarith
    with h have "(of_int \<lfloor>x\<rfloor> :: rat) < of_int k" by linarith
    then show ?thesis by simp
  qed
  ultimately show ?thesis
    unfolding round_half_even_def Let_def by auto
qed

lemma round_half_even_ge: "of_int k \<le> x \<Longrightarrow> k \<le> round_half_even x"
proof -
  assume "of_int k \<le> x"
  then have "k \<le> \<lfloor>x\<rfloor>" by (simp add: le_floor_iff)
  then show ?thesis
    unfolding round_half_even_def Let_def by auto
qed

lemma fl_pos:
  assumes "0 < x"
  shows "fl x = (if pow2 1024 \<le> of_int (round_half_even (x / pow2 (ulp_exp x))) * pow2 (ulp_exp x)
                 then PosInfinity
                 else Finite (of_int (round_half_even (x / pow2 (ulp_exp x))) * pow2 (ulp_exp x)))"
  using assms by (simp add: fl_def Let_def)

lemma fl_between:
  assumes x: "0 < x"
    and lo: "of_int l * pow2 (ulp_exp x) \<le> x"
    and hi: "x \<le> of_int h * pow2 (ulp_exp x)"
    and fin: "of_int h * pow2 (ulp_exp x) < pow2 1024"
  shows "\<exists>r. fl x = Finite r \<and> of_int l * pow2 (ulp_exp x) \<le> r \<and> r \<le> of_int h * pow2 (ulp_exp x)"
proof -
  define u where "u = pow2 (ulp_exp x)"
  define m where "m = round_half_even (x / u)"
  have u: "0 < u" by (simp add: u_def)
  have "of_int l \<le> x / u" using lo u by (simp add: u_def pos_le_divide_eq)
  then have lm: "l \<le> m" unfolding m_def by (rule round_half_even_ge)
  have "x / u \<le> of_int h" using hi u by (simp add: u_def pos_divide_le_eq)
  then have mh: "m \<le> h" unfolding m_def by (rule round_half_even_le)
  have a: "of_int l * u \<le> of_int m * u" using lm u by simp
  have b: "of_int m * u \<le> of_int h * u" using mh u by simp
  have "\<not> pow2 1024 \<le> of_int m * u" using b fin unfolding u_def by linarith
  then have "fl x = Finite (of_int m * u)"
    using fl_pos [OF x] by (simp add: u_def m_def)
  with a b show ?thesis by (auto simp: u_def)
qed

lemma floor_log2_less:
  assumes "0 < x" "x < pow2 k"
  shows "floor_log2 x < k"
proof -
  from floor_log2_bounds [OF assms(1)] have "pow2 (floor_log2 x) \<le> x" by simp
  then have "pow2 (floor_log2 x) < pow2 k" using assms(2) by (rule le_less_trans)
  then show ?thesis by simp
qed

lemma ulp_exp_small:
  assumes "0 < x" "x < 256"
  shows "ulp_exp x \<le> - 45"
proof -
  have "pow2 8 = 256" by (simp add: pow2_def)
  with assms have "floor_log2 x < 8" using floor_log2_less [of x 8] by simp
  then show ?thesis by (simp add: ulp_exp_def)
qed

lemma on_grid:
  assumes "k \<le> - 10"
  shows "\<exists>l. of_int m / 1024 = of_int l * pow2 k"
proof -
  have "pow2 (- k - 10) * pow2 k = pow2 (- 10)" by (simp flip: pow2_add)
  also have "\<dots> = 1 / 1024" by (simp add: pow2_def)
  finally have e: "pow2 (- k - 10) * pow2 k = 1 / 1024" .
  have "pow2 (- k - 10) = of_int (2 ^ nat (- k - 10))" using assms by (simp add: pow2_nat)
  then have "of_int (m * 2 ^ nat (- k - 10)) * pow2 k = of_int m * (pow2 (- k - 10) * pow2 k)"
    by simp
  then show ?thesis unfolding e by (intro exI [of _ "m * 2 ^ nat (- k - 10)"]) simp
qed

lemma fl_grid:
  assumes x: "0 < x" "x < 256"
    and lo: "of_int a / 1024 \<le> x"
    and hi: "x \<le> of_int b / 1024"
    and b: "b \<le> 262144"
  shows "\<exists>r. fl x = Finite r \<and> of_int a / 1024 \<le> r \<and> r \<le> of_int b / 1024"
proof -
  have k: "ulp_exp x \<le> - 10" using ulp_exp_small [OF x] by simp
  obtain l where l: "of_int a / 1024 = of_int l * pow2 (ulp_exp x)"
    using on_grid [OF k] by blast
  obtain h where h: "of_int b / 1024 = of_int h * pow2 (ulp_exp x)"
    using on_grid [OF k] by blast
  have "(of_int b :: rat) \<le> 262144" using b by (simp flip: of_int_numeral only: of_int_le_iff)
  then have "(of_int b :: rat) / 1024 \<le> 256" by simp
  also have "\<dots> < pow2 1024" by (simp add: pow2_def)
  finally have fin: "of_int h * pow2 (ulp_exp x) < pow2 1024" by (simp add: h)
  show ?thesis
    using fl_between [OF x(1) _ _ fin, of l] lo hi unfolding l h by simp
qed

section \<open>The default palette\<close>

text \<open>
  The two indices of lines 57-58 are computed with a division that rounds. The quotient
  of \<open>i < 216\<close> by 36 or by 6 lies at least 1/36 below the next integer, far more than
  the rounding moves it, so truncation gives the integer quotient.
\<close>

lemma sint_small: "0 \<le> m \<Longrightarrow> m < 6 \<Longrightarrow> sint (word_of_int m :: 32 word) = m"
  by (simp add: sint_sbintrunc' signed_take_bit_int_eq_self)

lemma quotient_index:
  assumes d: "0 < d" "d \<le> 36" and i: "i < 216"
  shows "bitor0 (js_rem (js_div (Finite (of_nat i)) (Finite (of_nat d))) (Finite 6))
           = int (i div d mod 6)"
proof (cases "i = 0")
  case True
  then show ?thesis
    using d by (simp add: js_div_def js_rem_def fl_def bitor0_def ToInt32_def trunc_def)
next
  case False
  define x :: rat where "x = of_nat i / of_nat d"
  define n where "n = int (i div d)"
  have dpos: "(0::rat) < of_nat d" using d by simp
  have x0: "0 < x" using False d by (simp add: x_def)
  have "(1::rat) \<le> of_nat d" using d by simp
  then have "x \<le> of_nat i" using dpos by (simp add: x_def divide_le_eq mult_le_cancel_left1)
  also have "\<dots> < 256" using i by simp
  finally have x256: "x < 256" .
  have idm: "i = d * (i div d) + i mod d" by simp
  have "(of_nat i :: rat) = of_nat d * of_nat (i div d) + of_nat (i mod d)"
    by (metis idm of_nat_add of_nat_mult)
  then have xe: "x = of_int n + of_nat (i mod d) / of_nat d"
    using d by (simp add: x_def n_def field_simps)
  have lo: "of_int n \<le> x" unfolding xe by simp
  have "i mod d < d" using d by simp
  then have "i mod d + 1 \<le> d" by simp
  then have "(of_nat (i mod d) :: rat) + 1 \<le> of_nat d" by (metis of_nat_1 of_nat_add of_nat_le_iff)
  then have "(of_nat (i mod d) :: rat) / of_nat d \<le> 1 - 1 / of_nat d"
    using dpos by (simp add: field_simps)
  also have "\<dots> \<le> 1 - 1 / 36"
  proof -
    have "(of_nat d :: rat) \<le> 36" using d by (metis of_nat_le_iff of_nat_numeral)
    then have "1 / 36 \<le> 1 / (of_nat d :: rat)" using dpos by (simp add: frac_le)
    then show ?thesis by simp
  qed
  finally have frac: "(of_nat (i mod d) :: rat) / of_nat d \<le> 1023 / 1024" by simp
  have hi: "x \<le> of_int n + 1023 / 1024" unfolding xe using frac by simp
  have n0: "0 \<le> n" by (simp add: n_def)
  have "i div d \<le> i" by simp
  then have "i div d \<le> 215" using i by linarith
  then have n215: "n \<le> 215" by (simp add: n_def)
  have a: "of_int (1024 * n) / 1024 \<le> x" using lo by simp
  have b: "x \<le> of_int (1024 * n + 1023) / 1024" using hi by (simp add: add_divide_distrib)
  have c: "1024 * n + 1023 \<le> 262144" using n215 by simp
  obtain r where r: "fl x = Finite r" "of_int n \<le> r" "r \<le> of_int n + 1023 / 1024"
    using fl_grid [OF x0 x256 a b c] by (auto simp: add_divide_distrib)
  define q where "q = n div 6"
  define m where "m = n mod 6"
  have nqm: "n = 6 * q + m" by (simp add: q_def m_def)
  have m: "0 \<le> m" "m < 6" by (simp_all add: m_def)
  have q0: "0 \<le> q" using n0 by (simp add: q_def)
  have r0: "0 \<le> r" using r(2) n0 by linarith
  have eq: "(of_int n :: rat) = 6 * of_int q + of_int m" by (simp add: nqm)
  have mb: "(0::rat) \<le> of_int m" "(of_int m :: rat) \<le> 5"
    using m by simp_all
  have fq: "\<lfloor>r / 6\<rfloor> = q"
  proof (rule floor_unique)
    show "of_int q \<le> r / 6" using eq mb r(2) by linarith
    show "r / 6 < of_int q + 1" using eq mb r(3) by linarith
  qed
  have tq: "trunc (r / 6) = q" using r0 fq by (simp add: trunc_def)
  define t where "t = r - 6 * of_int q"
  have tm: "\<lfloor>t\<rfloor> = m"
  proof (rule floor_unique)
    show "of_int m \<le> t" unfolding t_def using eq r(2) by linarith
    show "t < of_int m + 1" unfolding t_def using eq r(3) by linarith
  qed
  have t0: "0 \<le> t" using tm m(1) by (metis zero_le_floor)
  have "js_div (Finite (of_nat i)) (Finite (of_nat d)) = Finite r"
    using d r(1) by (simp add: js_div_def x_def)
  then have "js_rem (js_div (Finite (of_nat i)) (Finite (of_nat d))) (Finite 6) = Finite t"
    by (simp add: js_rem_def tq t_def)
  then have "bitor0 (js_rem (js_div (Finite (of_nat i)) (Finite (of_nat d))) (Finite 6)) = m"
    using t0 tm m by (simp add: bitor0_def ToInt32_def trunc_def sint_small)
  also have "m = int (i div d mod 6)" by (simp add: m_def n_def zmod_int)
  finally show ?thesis .
qed

lemma cube_r_eq: "i < 216 \<Longrightarrow> cube_r i = int (i div 36 mod 6)"
  using quotient_index [of 36 i] by (simp add: cube_r_def)

lemma cube_g_eq: "i < 216 \<Longrightarrow> cube_g i = int (i div 6 mod 6)"
  using quotient_index [of 6 i] by (simp add: cube_g_def)

lemma trunc_of_nat [simp]: "trunc (of_nat n) = int n"
  by (simp add: trunc_def)

lemma ToInt32_of_nat [simp]: "ToInt32 (Finite (of_nat n)) = word_of_nat n"
  by (simp add: ToInt32_def)

lemma ToInt32_numeral [simp]: "ToInt32 (Finite (numeral k)) = numeral k"
  using ToInt32_of_nat [of "numeral k"] by simp

lemma byte_ucast: "n < 256 \<Longrightarrow> (word_of_nat n :: u32) = ucast (word_of_nat n :: u8)"
  by (simp add: word_eq_iff_unsigned [where ?'a = nat] unsigned_ucast_eq take_bit_nat_eq_self
      unsigned_of_nat)

lemma ff_mask: "(0xFF :: u32) = mask 8"
  by (simp add: mask_eq_exp_minus_1)

lemma unpack_bytes:
  fixes a b c d :: u8
  defines "w \<equiv> push_bit 24 (ucast a) OR push_bit 16 (ucast b) OR push_bit 8 (ucast c) OR (ucast d :: u32)"
  shows "drop_bit 24 w AND 0xFF = ucast a"
    and "drop_bit 16 w AND 0xFF = ucast b"
    and "drop_bit 8 w AND 0xFF = ucast c"
    and "w AND 0xFF = ucast d"
  unfolding w_def ff_mask
  by (rule bit_word_eqI; auto simp: bit_simps dest: bit_imp_le_length)+

lemma unat_ucast_byte: "unat (ucast (word_of_nat n :: u8) :: u32) = n" if "n < 256"
  using that by (simp add: unsigned_ucast_eq unsigned_of_nat take_bit_nat_eq_self)

lemma channels_toRgba:
  assumes "r < 256" "g < 256" "b < 256" "a < 256"
  defines "w \<equiv> toRgba (Finite (of_nat r)) (Finite (of_nat g)) (Finite (of_nat b)) (Finite (of_nat a))"
  shows "channel 24 w = Finite (of_nat r)"
    and "channel 16 w = Finite (of_nat g)"
    and "channel 8 w = Finite (of_nat b)"
    and "w AND 0xFF = word_of_nat a"
proof -
  have w: "w = push_bit 24 (ucast (word_of_nat r :: u8)) OR push_bit 16 (ucast (word_of_nat g :: u8))
                 OR push_bit 8 (ucast (word_of_nat b :: u8)) OR ucast (word_of_nat a :: u8)"
    unfolding w_def toRgba_def using assms(1-4) by (simp add: byte_ucast)
  have u: "\<And>n. n < 256 \<Longrightarrow> (of_nat (unat (ucast (word_of_nat n :: u8) :: u32)) :: rat) = of_nat n"
    by (simp only: unat_ucast_byte)
  show "channel 24 w = Finite (of_nat r)"
    unfolding channel_def w unpack_bytes using assms(1) by (simp only: u)
  show "channel 16 w = Finite (of_nat g)"
    unfolding channel_def w unpack_bytes using assms(2) by (simp only: u)
  show "channel 8 w = Finite (of_nat b)"
    unfolding channel_def w unpack_bytes using assms(3) by (simp only: u)
  show "w AND 0xFF = word_of_nat a"
    unfolding w unpack_bytes using assms(4) by (simp only: byte_ucast)
qed

lemma cube_loop_eq: "i \<le> 216 \<Longrightarrow> cube_loop L i acc = acc @ map (cube_entry L) [i..<216]"
proof (induction L i acc rule: cube_loop.induct)
  case (1 L i acc)
  show ?case
  proof (cases "i < 216")
    case True
    then have "cube_loop L i acc = cube_loop L (Suc i) (acc @ [cube_entry L i])"
      by (subst cube_loop.simps) simp
    also have "\<dots> = (acc @ [cube_entry L i]) @ map (cube_entry L) [Suc i..<216]"
      using True by (intro "1.IH") simp_all
    also have "\<dots> = acc @ map (cube_entry L) [i..<216]"
      using True by (simp add: upt_conv_Cons)
    finally show ?thesis .
  next
    case False
    with "1.prems" have "i = 216" by simp
    then show ?thesis by (subst cube_loop.simps) simp
  qed
qed

lemma grey_loop_eq: "i \<le> 24 \<Longrightarrow> grey_loop L i acc = acc @ map (grey_entry L) [i..<24]"
proof (induction L i acc rule: grey_loop.induct)
  case (1 L i acc)
  show ?case
  proof (cases "i < 24")
    case True
    then have "grey_loop L i acc = grey_loop L (Suc i) (acc @ [grey_entry L i])"
      by (subst grey_loop.simps) simp
    also have "\<dots> = (acc @ [grey_entry L i]) @ map (grey_entry L) [Suc i..<24]"
      using True by (intro "1.IH") simp_all
    also have "\<dots> = acc @ map (grey_entry L) [i..<24]"
      using True by (simp add: upt_conv_Cons)
    finally show ?thesis .
  next
    case False
    with "1.prems" have "i = 24" by simp
    then show ?thesis by (subst grey_loop.simps) simp
  qed
qed

lemma DEFAULT_ANSI_COLORS_eq:
  "DEFAULT_ANSI_COLORS L
     = base_colors @ map (cube_entry L) [0..<216] @ map (grey_entry L) [0..<24]"
proof -
  have a: "cube_loop L 0 base_colors = base_colors @ map (cube_entry L) [0..<216]"
    by (rule cube_loop_eq) simp
  have b: "grey_loop L 0 xs = xs @ map (grey_entry L) [0..<24]" for xs
    by (rule grey_loop_eq) simp
  show ?thesis unfolding DEFAULT_ANSI_COLORS_def a b by (simp only: append_assoc)
qed

lemma length_base_colors: "length base_colors = 16"
  by (simp add: base_colors_def)

lemma length_DEFAULT_ANSI_COLORS: "length (DEFAULT_ANSI_COLORS L) = 256"
  unfolding DEFAULT_ANSI_COLORS_eq
  by (simp only: length_append length_map length_upt length_base_colors)


lemma DEFAULT_ANSI_COLORS_cube:
  assumes "16 \<le> i" "i \<le> 231"
  shows "DEFAULT_ANSI_COLORS L ! i = cube_entry L (i - 16)"
proof -
  have "DEFAULT_ANSI_COLORS L ! i
          = (map (cube_entry L) [0..<216] @ map (grey_entry L) [0..<24]) ! (i - 16)"
    unfolding DEFAULT_ANSI_COLORS_eq using assms
    by (simp only: nth_append length_base_colors) simp
  also have "\<dots> = map (cube_entry L) [0..<216] ! (i - 16)"
    using assms by (simp only: nth_append length_map length_upt) simp
  also have "\<dots> = cube_entry L (i - 16)"
    using assms by (simp only: nth_map_upt) simp
  finally show ?thesis .
qed

lemma DEFAULT_ANSI_COLORS_grey:
  assumes "232 \<le> i" "i \<le> 255"
  shows "DEFAULT_ANSI_COLORS L ! i = grey_entry L (i - 232)"
proof -
  have "DEFAULT_ANSI_COLORS L ! i
          = (map (cube_entry L) [0..<216] @ map (grey_entry L) [0..<24]) ! (i - 16)"
    unfolding DEFAULT_ANSI_COLORS_eq using assms
    by (simp only: nth_append length_base_colors) simp
  also have "\<dots> = map (grey_entry L) [0..<24] ! (i - 16 - 216)"
    using assms by (simp only: nth_append length_map length_upt) simp
  also have "\<dots> = grey_entry L (i - 232)"
    using assms by (simp only: nth_map_upt) simp
  finally show ?thesis .
qed

lemma v_bound: "k < 6 \<Longrightarrow> v ! k < 256"
proof -
  assume "k < 6"
  then have "k \<in> {0, 1, 2, 3, 4, 5}" by auto
  then show ?thesis by (auto simp: v_def)
qed

lemma cube_entry_eq:
  assumes "i < 216"
  shows "cube_entry L i =
     \<lparr>css = toCss L (Finite (of_nat (v ! (i div 36 mod 6)))) (Finite (of_nat (v ! (i div 6 mod 6))))
              (Finite (of_nat (v ! (i mod 6)))) None,
      rgba = toRgba (Finite (of_nat (v ! (i div 36 mod 6)))) (Finite (of_nat (v ! (i div 6 mod 6))))
               (Finite (of_nat (v ! (i mod 6)))) (Finite 0xFF)\<rparr>"
  using assms by (simp add: cube_entry_def cube_r_eq cube_g_eq Let_def)

lemma step_bound: "k < 6 \<Longrightarrow> [0x00, 0x5f, 0x87, 0xaf, 0xd7, 0xff] ! k < (256::nat)"
proof -
  assume "k < 6"
  then have "k \<in> {0, 1, 2, 3, 4, 5}" by auto
  then show ?thesis by auto
qed

lemma opaque_entry:
  assumes "r < 256" "g < 256" "b < 256"
  shows "channel 24 (rgba \<lparr>css = s, rgba = toRgba (Finite (of_nat r)) (Finite (of_nat g))
                                  (Finite (of_nat b)) (Finite 0xFF)\<rparr>) = Finite (of_nat r) \<and>
         channel 16 (rgba \<lparr>css = s, rgba = toRgba (Finite (of_nat r)) (Finite (of_nat g))
                                  (Finite (of_nat b)) (Finite 0xFF)\<rparr>) = Finite (of_nat g) \<and>
         channel 8 (rgba \<lparr>css = s, rgba = toRgba (Finite (of_nat r)) (Finite (of_nat g))
                                  (Finite (of_nat b)) (Finite 0xFF)\<rparr>) = Finite (of_nat b) \<and>
         isOpaque \<lparr>css = s, rgba = toRgba (Finite (of_nat r)) (Finite (of_nat g))
                                  (Finite (of_nat b)) (Finite 0xFF)\<rparr>"
proof -
  have e: "(Finite 0xFF) = Finite (of_nat 255)" by simp
  show ?thesis
    unfolding isOpaque_def e
    using channels_toRgba [OF assms(1-3), of 255] by simp
qed

text \<open>
  C2. The default palette is a constant of the module (line 31, frozen), a function of
  nothing but the colour library: every access reads the same 256 entries. For \<open>i\<close> in
  16..231 the entry is the opaque colour whose red, green and blue are the entries
  \<open>(i - 16) div 36 mod 6\<close>, \<open>(i - 16) div 6 mod 6\<close> and \<open>(i - 16) mod 6\<close> of the step
  table \<^verbatim>\<open>[0x00, 0x5f, 0x87, 0xaf, 0xd7, 0xff]\<close>; for \<open>i\<close> in 232..255 it is the opaque
  grey whose three channels are \<open>8 + 10 * (i - 232)\<close>.
\<close>

theorem default_palette:
  "length (DEFAULT_ANSI_COLORS L) = 256 \<and>
   (\<forall>i. 16 \<le> i \<and> i \<le> 231 \<longrightarrow>
      (let r = [0x00, 0x5f, 0x87, 0xaf, 0xd7, 0xff] ! ((i - 16) div 36 mod 6);
           g = [0x00, 0x5f, 0x87, 0xaf, 0xd7, 0xff] ! ((i - 16) div 6 mod 6);
           b = [0x00, 0x5f, 0x87, 0xaf, 0xd7, 0xff] ! ((i - 16) mod 6);
           c = DEFAULT_ANSI_COLORS L ! i
       in c = \<lparr>css = toCss L (Finite (of_nat r)) (Finite (of_nat g)) (Finite (of_nat b)) None,
                rgba = toRgba (Finite (of_nat r)) (Finite (of_nat g)) (Finite (of_nat b))
                         (Finite 0xFF)\<rparr> \<and>
          channel 24 (rgba c) = Finite (of_nat r) \<and>
          channel 16 (rgba c) = Finite (of_nat g) \<and>
          channel 8 (rgba c) = Finite (of_nat b) \<and>
          isOpaque c)) \<and>
   (\<forall>i. 232 \<le> i \<and> i \<le> 255 \<longrightarrow>
      (let k = 8 + 10 * (i - 232);
           c = DEFAULT_ANSI_COLORS L ! i
       in c = \<lparr>css = toCss L (Finite (of_nat k)) (Finite (of_nat k)) (Finite (of_nat k)) None,
                rgba = toRgba (Finite (of_nat k)) (Finite (of_nat k)) (Finite (of_nat k))
                         (Finite 0xFF)\<rparr> \<and>
          channel 24 (rgba c) = Finite (of_nat k) \<and>
          channel 16 (rgba c) = Finite (of_nat k) \<and>
          channel 8 (rgba c) = Finite (of_nat k) \<and>
          isOpaque c))"
proof (intro conjI allI impI)
  show "length (DEFAULT_ANSI_COLORS L) = 256" by (rule length_DEFAULT_ANSI_COLORS)
next
  fix i :: nat
  assume i: "16 \<le> i \<and> i \<le> 231"
  define j where "j = i - 16"
  have j: "j < 216" using i unfolding j_def by linarith
  define r where "r = v ! (j div 36 mod 6)"
  define g where "g = v ! (j div 6 mod 6)"
  define b where "b = v ! (j mod 6)"
  have bounds: "r < 256" "g < 256" "b < 256"
    unfolding r_def g_def b_def v_def by (rule step_bound, simp)+
  have c: "DEFAULT_ANSI_COLORS L ! i =
      \<lparr>css = toCss L (Finite (of_nat r)) (Finite (of_nat g)) (Finite (of_nat b)) None,
       rgba = toRgba (Finite (of_nat r)) (Finite (of_nat g)) (Finite (of_nat b)) (Finite 0xFF)\<rparr>"
    using i j by (simp only: DEFAULT_ANSI_COLORS_cube cube_entry_eq r_def g_def b_def j_def)
  show "let r = [0x00, 0x5f, 0x87, 0xaf, 0xd7, 0xff] ! ((i - 16) div 36 mod 6);
           g = [0x00, 0x5f, 0x87, 0xaf, 0xd7, 0xff] ! ((i - 16) div 6 mod 6);
           b = [0x00, 0x5f, 0x87, 0xaf, 0xd7, 0xff] ! ((i - 16) mod 6);
           c = DEFAULT_ANSI_COLORS L ! i
       in c = \<lparr>css = toCss L (Finite (of_nat r)) (Finite (of_nat g)) (Finite (of_nat b)) None,
                rgba = toRgba (Finite (of_nat r)) (Finite (of_nat g)) (Finite (of_nat b))
                         (Finite 0xFF)\<rparr> \<and>
          channel 24 (rgba c) = Finite (of_nat r) \<and>
          channel 16 (rgba c) = Finite (of_nat g) \<and>
          channel 8 (rgba c) = Finite (of_nat b) \<and>
          isOpaque c"
    unfolding Let_def c
    using opaque_entry [OF bounds]
    by (simp only: r_def g_def b_def j_def v_def simp_thms)
next
  fix i :: nat
  assume i: "232 \<le> i \<and> i \<le> 255"
  define k where "k = 8 + 10 * (i - 232)"
  have k: "k < 256" using i unfolding k_def by linarith
  have "grey_entry L (i - 232) =
      \<lparr>css = toCss L (Finite (of_nat k)) (Finite (of_nat k)) (Finite (of_nat k)) None,
       rgba = toRgba (Finite (of_nat k)) (Finite (of_nat k)) (Finite (of_nat k)) (Finite 0xFF)\<rparr>"
    by (simp add: grey_entry_def k_def Let_def mult.commute)
  then have c: "DEFAULT_ANSI_COLORS L ! i =
      \<lparr>css = toCss L (Finite (of_nat k)) (Finite (of_nat k)) (Finite (of_nat k)) None,
       rgba = toRgba (Finite (of_nat k)) (Finite (of_nat k)) (Finite (of_nat k)) (Finite 0xFF)\<rparr>"
    using i by (simp only: DEFAULT_ANSI_COLORS_grey)
  show "let k = 8 + 10 * (i - 232);
           c = DEFAULT_ANSI_COLORS L ! i
       in c = \<lparr>css = toCss L (Finite (of_nat k)) (Finite (of_nat k)) (Finite (of_nat k)) None,
                rgba = toRgba (Finite (of_nat k)) (Finite (of_nat k)) (Finite (of_nat k))
                         (Finite 0xFF)\<rparr> \<and>
          channel 24 (rgba c) = Finite (of_nat k) \<and>
          channel 16 (rgba c) = Finite (of_nat k) \<and>
          channel 8 (rgba c) = Finite (of_nat k) \<and>
          isOpaque c"
    unfolding Let_def c
    using opaque_entry [OF k k k]
    by (simp only: k_def simp_thms)
qed

theorem default_palette_witness:
  "length (DEFAULT_ANSI_COLORS example_lib) = 256 \<and>
   DEFAULT_ANSI_COLORS example_lib ! 196 = \<lparr>css = ''#ff0000'', rgba = 0xFF0000FF\<rparr> \<and>
   DEFAULT_ANSI_COLORS example_lib ! 110 = \<lparr>css = ''#87afd7'', rgba = 0x87AFD7FF\<rparr> \<and>
   DEFAULT_ANSI_COLORS example_lib ! 232 = \<lparr>css = ''#080808'', rgba = 0x080808FF\<rparr> \<and>
   DEFAULT_ANSI_COLORS example_lib ! 255 = \<lparr>css = ''#eeeeee'', rgba = 0xEEEEEEFF\<rparr>"
proof -
  have a: "(16::nat) \<le> 196 \<and> (196::nat) \<le> 231" "(16::nat) \<le> 110 \<and> (110::nat) \<le> 231"
    "(232::nat) \<le> 232 \<and> (232::nat) \<le> 255" "(232::nat) \<le> 255 \<and> (255::nat) \<le> 255"
    by simp_all
  from default_palette [of example_lib] a
  have "length (DEFAULT_ANSI_COLORS example_lib) = 256"
    and "DEFAULT_ANSI_COLORS example_lib ! 196 =
      \<lparr>css = toCss example_lib (Finite 255) (Finite 0) (Finite 0) None,
       rgba = toRgba (Finite 255) (Finite 0) (Finite 0) (Finite 0xFF)\<rparr>"
    and "DEFAULT_ANSI_COLORS example_lib ! 110 =
      \<lparr>css = toCss example_lib (Finite 135) (Finite 175) (Finite 215) None,
       rgba = toRgba (Finite 135) (Finite 175) (Finite 215) (Finite 0xFF)\<rparr>"
    and "DEFAULT_ANSI_COLORS example_lib ! 232 =
      \<lparr>css = toCss example_lib (Finite 8) (Finite 8) (Finite 8) None,
       rgba = toRgba (Finite 8) (Finite 8) (Finite 8) (Finite 0xFF)\<rparr>"
    and "DEFAULT_ANSI_COLORS example_lib ! 255 =
      \<lparr>css = toCss example_lib (Finite 238) (Finite 238) (Finite 238) None,
       rgba = toRgba (Finite 238) (Finite 238) (Finite 238) (Finite 0xFF)\<rparr>"
    by (simp_all add: Let_def)
  moreover have "toCss example_lib (Finite 255) (Finite 0) (Finite 0) None = ''#ff0000''"
    "toCss example_lib (Finite 135) (Finite 175) (Finite 215) None = ''#87afd7''"
    "toCss example_lib (Finite 8) (Finite 8) (Finite 8) None = ''#080808''"
    "toCss example_lib (Finite 238) (Finite 238) (Finite 238) None = ''#eeeeee''"
    by (simp_all add: example_lib_def example_hex_def trunc_def)
  moreover have "toRgba (Finite 255) (Finite 0) (Finite 0) (Finite 0xFF) = 0xFF0000FF"
    "toRgba (Finite 135) (Finite 175) (Finite 215) (Finite 0xFF) = 0x87AFD7FF"
    "toRgba (Finite 8) (Finite 8) (Finite 8) (Finite 0xFF) = 0x080808FF"
    "toRgba (Finite 238) (Finite 238) (Finite 238) (Finite 0xFF) = 0xEEEEEEFF"
    by (simp_all add: toRgba_def ToInt32_def trunc_def)
  ultimately show ?thesis by (simp only: simp_thms)
qed

section \<open>The colours \<^verbatim>\<open>_parseColor\<close> builds\<close>

lemma pow2_neq0 [simp]: "pow2 k \<noteq> 0"
  by (simp add: pow2_def)

lemma pow2_nonneg [simp]: "0 \<le> pow2 k"
  by (simp add: pow2_def)

lemma round_half_even_of_int [simp]: "round_half_even (of_int m) = m"
  by (simp add: round_half_even_def)

lemma round_half_even_numeral [simp]: "round_half_even (numeral n) = numeral n"
  using round_half_even_of_int [of "numeral n"] by simp

lemma fl_eval:
  assumes x: "0 < x" and lo: "pow2 e \<le> x" and hi: "x < pow2 (e + 1)"
    and e: "- 1022 \<le> e" "e < 1023"
    and m: "round_half_even (x / pow2 (e - 52)) = m"
  shows "fl x = Finite (of_int m * pow2 (e - 52))"
proof -
  have fe: "floor_log2 x = e" using x lo hi by (rule floor_log2_unique)
  have u: "ulp_exp x = e - 52" using e by (simp add: ulp_exp_def fe)
  have s: "pow2 (e + 1) = pow2 53 * pow2 (e - 52)"
  proof -
    have "e + 1 = 53 + (e - 52)" by simp
    then show ?thesis by (simp only: pow2_add)
  qed
  have p53: "pow2 53 = of_int (2 ^ 53)" by (simp add: pow2_def)
  have "x / pow2 (e - 52) \<le> pow2 (e + 1) / pow2 (e - 52)"
    using hi by (intro divide_right_mono) (simp_all add: less_imp_le)
  also have "\<dots> = of_int (2 ^ 53)" unfolding s p53 by simp
  finally have "m \<le> 2 ^ 53" unfolding m [symmetric] by (rule round_half_even_le)
  then have "(of_int m :: rat) \<le> of_int (2 ^ 53)" by (simp only: of_int_le_iff)
  then have "of_int m * pow2 (e - 52) \<le> of_int (2 ^ 53) * pow2 (e - 52)"
    by (intro mult_right_mono) (simp_all add: less_imp_le)
  also have "\<dots> = pow2 (e + 1)" unfolding s p53 ..
  also have "\<dots> < pow2 1024" using e by simp
  finally have "\<not> pow2 1024 \<le> of_int m * pow2 (e - 52)" by simp
  then show ?thesis using fl_pos [OF x] by (simp add: u m)
qed

lemma alpha_range:
  assumes "0 \<le> q" "q \<le> 1"
  shows "\<exists>k\<le>255. Math_round (js_mul (Finite q) (Finite 255)) = Finite (of_nat k)"
proof (cases "q = 0")
  case True
  have "\<lfloor>1 / 2 :: rat\<rfloor> = 0" by (rule floor_unique) simp_all
  then have "Math_round (js_mul (Finite q) (Finite 255)) = Finite (of_nat 0)"
    using True by (simp add: js_mul_def fl_def Math_round_def)
  then show ?thesis by blast
next
  case False
  define y where "y = q * 255"
  have y0: "0 < y" using assms False by (simp add: y_def)
  have y255: "y \<le> 255" using assms by (simp add: y_def)
  then have y256: "y < 256" by simp
  have a: "of_int 0 / 1024 \<le> y" using y0 by simp
  have b: "y \<le> of_int 261120 / 1024" using y255 by simp
  obtain r where r: "fl y = Finite r" "0 \<le> r" "r \<le> 255"
    using fl_grid [OF y0 y256 a b] by auto
  define k where "k = nat \<lfloor>r + 1 / 2\<rfloor>"
  have f0: "0 \<le> \<lfloor>r + 1 / 2\<rfloor>" using r(2) by simp
  have "r + 1 / 2 < 256" using r(3) by simp
  then have "\<lfloor>r + 1 / 2\<rfloor> < 256" by (subst floor_less_iff) simp
  then have k: "k \<le> 255" using f0 unfolding k_def by linarith
  have "(of_int \<lfloor>r + 1 / 2\<rfloor> :: rat) = of_nat k" using f0 by (simp add: k_def)
  then have "Math_round (js_mul (Finite q) (Finite 255)) = Finite (of_nat k)"
    using r(1) by (simp add: js_mul_def Math_round_def y_def)
  with k show ?thesis by blast
qed

lemma fl_255: "fl 255 = Finite 255"
  using fl_eval [of 255 7 "255 * 2 ^ 45"] by (simp add: pow2_def)

lemma fl_half: "fl (1 / 2) = Finite (1 / 2)"
  using fl_eval [of "1 / 2" "- 1" "2 ^ 52"] by (simp add: pow2_def)

lemma fl_255_half: "fl (255 / 2) = Finite (255 / 2)"
  using fl_eval [of "255 / 2" 6 "255 * 2 ^ 45"] by (simp add: pow2_def)

lemma ToInt32_unsigned: "ToInt32 (Finite (unsigned (d :: u8))) = ucast d"
proof -
  have "(unsigned d :: rat) = of_nat (unat d)" by simp
  then have "ToInt32 (Finite (unsigned d)) = word_of_nat (unat d)"
    by (simp only: ToInt32_of_nat)
  also have "\<dots> = ucast d" by simp
  finally show ?thesis .
qed

text \<open>
  C6. For a string the engine accepts and paints fully opaque, \<^verbatim>\<open>_parseColor\<close> returns,
  whatever the fallback and the transparency flag, the colour whose CSS string is the
  engine's serialised \<^verbatim>\<open>fillStyle\<close> (the input string occurs nowhere in the result) and
  whose packed value holds the three bytes read back from the pixel, with alpha
  \<^verbatim>\<open>0xFF\<close>; it writes nothing to the console.
\<close>

theorem parseColor_opaque:
  assumes "context c = Some res" and "data_3 res = 0xFF"
  shows "parseColor context (Some c) fallback allowTransparency' =
           (\<lparr>css = fillStyle res,
             rgba = push_bit 24 (ucast (data_0 res)) OR push_bit 16 (ucast (data_1 res))
                    OR push_bit 8 (ucast (data_2 res)) OR 0xFF\<rparr>, [])"
  using assms
  by (simp add: parseColor_def opaque_color_def toRgba_def ToInt32_unsigned)

theorem parseColor_opaque_witness:
  "example_context ''#FFFFFF'' =
     Some \<lparr>fillStyle = ''#ffffff'', data_0 = 255, data_1 = 255, data_2 = 255, data_3 = 255\<rparr> \<and>
   parseColor example_context (Some ''#FFFFFF'') DEFAULT_BACKGROUND False =
     (\<lparr>css = ''#ffffff'', rgba = 0xFFFFFFFF\<rparr>, []) \<and>
   parseColor example_context (Some ''#336699'') DEFAULT_BACKGROUND False =
     (\<lparr>css = ''#336699'', rgba = 0x336699FF\<rparr>, [])"
  using parseColor_opaque [of example_context "''#FFFFFF''"
      "\<lparr>fillStyle = ''#ffffff'', data_0 = 255, data_1 = 255, data_2 = 255, data_3 = 255\<rparr>"
      DEFAULT_BACKGROUND False]
    parseColor_opaque [of example_context "''#336699''"
      "\<lparr>fillStyle = ''#336699'', data_0 = 0x33, data_1 = 0x66, data_2 = 0x99, data_3 = 255\<rparr>"
      DEFAULT_BACKGROUND False]
  by (simp add: example_context_def)

text \<open>
  C7. For a string the engine accepts and paints not fully opaque, with transparency
  allowed, \<^verbatim>\<open>_parseColor\<close> returns the colour whose CSS string is the input string as it
  was given, and whose packed value is built from the numbers between the commas of the
  serialised \<^verbatim>\<open>fillStyle\<close>, past its first five characters and without its last: red,
  green and blue as they stand, and for alpha the fourth number times 255, rounded to the
  nearest integer. A fourth number from 0 to 1 gives an integer from 0 to 255.
\<close>

theorem parseColor_transparent:
  assumes "context c = Some res" and "data_3 res \<noteq> 0xFF"
  shows "let xs = map Number (split CHR '','' (substring (fillStyle res) 5
                                  (int (length (fillStyle res)) - 1)));
             alpha = Math_round (js_mul (destructure xs 3) (Finite 255))
         in parseColor context (Some c) fallback True =
              (\<lparr>css = c,
                rgba = toRgba (destructure xs 0) (destructure xs 1) (destructure xs 2) alpha\<rparr>,
               []) \<and>
            (\<forall>q. destructure xs 3 = Finite q \<and> 0 \<le> q \<and> q \<le> 1 \<longrightarrow>
                 (\<exists>k\<le>255. alpha = Finite (of_nat k)))"
  using assms alpha_range
  by (auto simp: parseColor_def transparent_color_def Let_def)

theorem parseColor_transparent_witness:
  "example_context ''RGBA(0,0,255,.5)'' =
     Some \<lparr>fillStyle = ''rgba(0, 0, 255, 0.5)'', data_0 = 0, data_1 = 0, data_2 = 255,
           data_3 = 128\<rparr> \<and>
   parseColor example_context (Some ''RGBA(0,0,255,.5)'') DEFAULT_BACKGROUND True =
     (\<lparr>css = ''RGBA(0,0,255,.5)'', rgba = 0x0000FF80\<rparr>, [])"
proof -
  have ctx: "example_context ''RGBA(0,0,255,.5)'' =
     Some \<lparr>fillStyle = ''rgba(0, 0, 255, 0.5)'', data_0 = 0, data_1 = 0, data_2 = 255,
           data_3 = 128\<rparr>"
    by (simp add: example_context_def)
  have sub: "substring ''rgba(0, 0, 255, 0.5)'' 5 (int (length ''rgba(0, 0, 255, 0.5)'') - 1)
               = ''0, 0, 255, 0.5''"
    by (simp add: substring_def)
  have spl: "split CHR '','' ''0, 0, 255, 0.5'' = [''0'', '' 0'', '' 255'', '' 0.5'']"
    by simp
  have num: "Number ''0'' = fl 0" "Number '' 0'' = fl 0" "Number '' 255'' = fl 255"
    "Number '' 0.5'' = fl (1 / 2)"
    by (simp_all add: Number_def trim_def is_ws_def non_decimal_def unsigned_literal_def
        unsigned_decimal_def mantissa_def digits_def digit_of_def is_exp_def)
  have xs: "map Number (split CHR '','' (substring ''rgba(0, 0, 255, 0.5)'' 5
              (int (length ''rgba(0, 0, 255, 0.5)'') - 1)))
              = [Finite 0, Finite 0, Finite 255, Finite (1 / 2)]"
    unfolding sub spl by (simp add: num fl_255 fl_half) (simp add: fl_def)
  have alpha: "Math_round (js_mul (Finite (1 / 2)) (Finite 255)) = Finite 128"
    by (simp add: js_mul_def fl_255_half Math_round_def)
  have pack: "toRgba (Finite 0) (Finite 0) (Finite 255) (Finite 128) = 0x0000FF80"
    by (simp add: toRgba_def ToInt32_def trunc_def)
  have "parseColor example_context (Some ''RGBA(0,0,255,.5)'') DEFAULT_BACKGROUND True =
     (\<lparr>css = ''RGBA(0,0,255,.5)'', rgba = 0x0000FF80\<rparr>, [])"
    using parseColor_transparent [of example_context "''RGBA(0,0,255,.5)''"
        "\<lparr>fillStyle = ''rgba(0, 0, 255, 0.5)'', data_0 = 0, data_1 = 0, data_2 = 255,
          data_3 = 128\<rparr>" DEFAULT_BACKGROUND] ctx
    unfolding Let_def canvas_result.simps xs by (simp add: destructure_def alpha pack)
  with ctx show ?thesis by simp
qed

section \<open>Properties of \<^verbatim>\<open>setTheme\<close>\<close>

subsection \<open>Arrays and single statements\<close>

lemma length_js_set: "length (js_set xs i x) = max (length xs) (Suc i)"
  by (simp add: js_set_def)

lemma js_get_js_set: "js_get (js_set xs i x) j = (if j = i then x else js_get xs j)"
  by (auto simp: js_set_def js_get_def nth_append)

lemma js_set_same: "i < length xs \<Longrightarrow> js_get xs i = x \<Longrightarrow> js_set xs i x = xs"
  by (auto simp: js_set_def js_get_def)

lemma assign_colors [simp]:
  "colors (assign put c fb tr s) = put (fst (parseColor (ctx s) c fb tr)) (colors s)"
  by (simp add: assign_def split: prod.split)

lemma assign_frame [simp]:
  "ctx (assign put c fb tr s) = ctx s"
  "allowTransparency (assign put c fb tr s) = allowTransparency s"
  "contrastCache (assign put c fb tr s) = contrastCache s"
  "restoreColors (assign put c fb tr s) = restoreColors s"
  by (simp_all add: assign_def split: prod.split)

lemma setTheme_selection_frame [simp]:
  "ctx (setTheme_selection L th s) = ctx s"
  "allowTransparency (setTheme_selection L th s) = allowTransparency s"
  "contrastCache (setTheme_selection L th s) = contrastCache s"
  "restoreColors (setTheme_selection L th s) = restoreColors s"
  "ansi (colors (setTheme_selection L th s)) = ansi (colors s)"
  "foreground (colors (setTheme_selection L th s)) = foreground (colors s)"
  "background (colors (setTheme_selection L th s)) = background (colors s)"
  "cursor (colors (setTheme_selection L th s)) = cursor (colors s)"
  "cursorAccent (colors (setTheme_selection L th s)) = cursorAccent (colors s)"
  by (simp_all add: setTheme_selection_def Let_def split: option.split)

lemma setTheme_ansi_frame [simp]:
  "ctx (setTheme_ansi L cs i s) = ctx s"
  "allowTransparency (setTheme_ansi L cs i s) = allowTransparency s"
  "contrastCache (setTheme_ansi L cs i s) = contrastCache s"
  "restoreColors (setTheme_ansi L cs i s) = restoreColors s"
  by (induction cs arbitrary: i s; simp)+

lemma setTheme_ansi_colors:
  "\<exists>xs. colors (setTheme_ansi L cs i s) = (colors s)\<lparr>ansi := xs\<rparr>"
proof (induction cs arbitrary: i s)
  case Nil
  show ?case by (rule exI [of _ "ansi (colors s)"]) simp
next
  case (Cons c cs)
  obtain xs where
    "colors (setTheme_ansi L cs (Suc i)
        (assign (put_ansi i) c (DEFAULT_ANSI_COLORS L ! i) (allowTransparency s) s))
      = (colors (assign (put_ansi i) c (DEFAULT_ANSI_COLORS L ! i) (allowTransparency s) s))
          \<lparr>ansi := xs\<rparr>"
    using Cons.IH by blast
  then show ?case by (simp add: put_ansi_def) blast
qed

lemma setTheme_ansi_length:
  "length (ansi (colors (setTheme_ansi L cs i s))) =
     (if cs = [] then length (ansi (colors s)) else max (length (ansi (colors s))) (i + length cs))"
  by (induction cs arbitrary: i s) (auto simp: put_ansi_def length_js_set)

lemma setTheme_ansi_get:
  "js_get (ansi (colors (setTheme_ansi L cs i s))) j =
     (if i \<le> j \<and> j < i + length cs
      then Some (fst (parseColor (ctx s) (cs ! (j - i)) (DEFAULT_ANSI_COLORS L ! j)
                        (allowTransparency s)))
      else js_get (ansi (colors s)) j)"
proof (induction cs arbitrary: i s)
  case Nil
  then show ?case by auto
next
  case (Cons c cs)
  show ?case
    by (auto simp: Cons.IH put_ansi_def js_get_js_set nth_Cons' Suc_diff_le not_less_eq_eq
        le_Suc_eq)
qed

subsection \<open>Lines 131-169\<close>

lemma colors_setTheme_selection:
  "colors (setTheme_selection L th s) =
     (colors s)
       \<lparr>selectionTransparent :=
          (let c = fst (parseColor (ctx s) (theme_selection th) DEFAULT_SELECTION True)
           in if isOpaque c then opacity L c opacity_literal else c),
        selectionOpaque :=
          blend L (background (colors s))
            (fst (parseColor (ctx s) (theme_selection th) DEFAULT_SELECTION True)),
        selectionForeground :=
          (case theme_selectionForeground th of
             None \<Rightarrow> None
           | Some str \<Rightarrow>
               if str = [] then None
               else let c = fst (parseColor (ctx s) (Some str) nullColor (allowTransparency s))
                    in if c = nullColor then None else Some c)\<rparr>"
  by (simp add: setTheme_selection_def Let_def split: option.split)

lemma colors_setTheme_fixed:
  "colors (setTheme_fixed L th s) =
     \<lparr>foreground = fst (parseColor (ctx s) (theme_foreground th) DEFAULT_FOREGROUND
                          (allowTransparency s)),
      background = fst (parseColor (ctx s) (theme_background th) DEFAULT_BACKGROUND
                          (allowTransparency s)),
      cursor = fst (parseColor (ctx s) (theme_cursor th) DEFAULT_CURSOR True),
      cursorAccent = fst (parseColor (ctx s) (theme_cursorAccent th) DEFAULT_CURSOR_ACCENT True),
      selectionTransparent =
        (let c = fst (parseColor (ctx s) (theme_selection th) DEFAULT_SELECTION True)
         in if isOpaque c then opacity L c opacity_literal else c),
      selectionOpaque =
        blend L (fst (parseColor (ctx s) (theme_background th) DEFAULT_BACKGROUND
                        (allowTransparency s)))
          (fst (parseColor (ctx s) (theme_selection th) DEFAULT_SELECTION True)),
      selectionForeground =
        (case theme_selectionForeground th of
           None \<Rightarrow> None
         | Some str \<Rightarrow>
             if str = [] then None
             else let c = fst (parseColor (ctx s) (Some str) nullColor (allowTransparency s))
                  in if c = nullColor then None else Some c),
      ansi = ansi (colors (setTheme_fixed L th s))\<rparr>"
proof -
  define s4 where "s4 =
    assign (\<lambda>c cs. cs\<lparr>cursorAccent := c\<rparr>) (theme_cursorAccent th) DEFAULT_CURSOR_ACCENT True
     (assign (\<lambda>c cs. cs\<lparr>cursor := c\<rparr>) (theme_cursor th) DEFAULT_CURSOR True
       (assign (\<lambda>c cs. cs\<lparr>background := c\<rparr>) (theme_background th) DEFAULT_BACKGROUND
          (allowTransparency s)
         (assign (\<lambda>c cs. cs\<lparr>foreground := c\<rparr>) (theme_foreground th) DEFAULT_FOREGROUND
            (allowTransparency s) s)))"
  have f: "setTheme_fixed L th s = setTheme_ansi L (theme_ansi th) 0 (setTheme_selection L th s4)"
    by (simp add: setTheme_fixed_def s4_def Let_def)
  obtain xs where xs: "colors (setTheme_fixed L th s) = (colors (setTheme_selection L th s4))\<lparr>ansi := xs\<rparr>"
    unfolding f using setTheme_ansi_colors by blast
  have c4: "ctx s4 = ctx s" "allowTransparency s4 = allowTransparency s"
    by (simp_all add: s4_def)
  show ?thesis
    unfolding xs colors_setTheme_selection c4
    by (cases "colors s") (simp add: s4_def)
qed

lemma setTheme_fixed_frame [simp]:
  "ctx (setTheme_fixed L th s) = ctx s"
  "allowTransparency (setTheme_fixed L th s) = allowTransparency s"
  "contrastCache (setTheme_fixed L th s) = contrastCache s"
  "restoreColors (setTheme_fixed L th s) = restoreColors s"
  by (simp_all add: setTheme_fixed_def Let_def)

lemma theme_ansi_length [simp]: "length (theme_ansi th) = 16"
  by (simp add: theme_ansi_def)

lemma setTheme_fixed_length:
  "length (ansi (colors (setTheme_fixed L th s))) = max (length (ansi (colors s))) 16"
  by (simp add: setTheme_fixed_def Let_def setTheme_ansi_length) (simp add: theme_ansi_def)

lemma setTheme_fixed_get:
  "js_get (ansi (colors (setTheme_fixed L th s))) j =
     (if j < 16
      then Some (fst (parseColor (ctx s) (theme_ansi th ! j) (DEFAULT_ANSI_COLORS L ! j)
                        (allowTransparency s)))
      else js_get (ansi (colors s)) j)"
  by (simp add: setTheme_fixed_def Let_def setTheme_ansi_get)

subsection \<open>The loop of lines 172-174\<close>

lemma loop_frame:
  "extendedAnsi_loop L ext n i s = (c, s') \<Longrightarrow>
     ctx s' = ctx s \<and> allowTransparency s' = allowTransparency s \<and>
     contrastCache s' = contrastCache s \<and> restoreColors s' = restoreColors s \<and>
     (\<exists>xs. colors s' = (colors s)\<lparr>ansi := xs\<rparr>) \<and>
     length (ansi (colors s)) \<le> length (ansi (colors s')) \<and>
     (\<forall>j<i. js_get (ansi (colors s')) j = js_get (ansi (colors s)) j)"
proof (induction L ext n i s arbitrary: c s' rule: extendedAnsi_loop.induct)
  case (1 L ext n i s)
  show ?case
  proof (cases "i < n")
    case False
    then have "s' = s" using "1.prems" by (simp add: extendedAnsi_loop.simps [of L ext n i s])
    then show ?thesis by (auto intro: exI [of _ "ansi (colors s)"])
  next
    case True
    show ?thesis
    proof (cases "js_index (DEFAULT_ANSI_COLORS L) i")
      case (Some fb)
      define s1 where "s1 = assign (put_ansi i) (js_index ext (i - 16)) fb (allowTransparency s) s"
      have run: "extendedAnsi_loop L ext n (Suc i) s1 = (c, s')"
        using "1.prems" True Some by (simp add: extendedAnsi_loop.simps [of L ext n i s] s1_def)
      note ih = "1.IH"(2) [OF True Some run [unfolded s1_def], folded s1_def]
      have a: "ctx s1 = ctx s" "allowTransparency s1 = allowTransparency s"
        "contrastCache s1 = contrastCache s" "restoreColors s1 = restoreColors s"
        by (simp_all add: s1_def)
      have b: "\<exists>xs. colors s1 = (colors s)\<lparr>ansi := xs\<rparr>"
        by (simp add: s1_def put_ansi_def) blast
      have l: "length (ansi (colors s)) \<le> length (ansi (colors s1))"
        by (simp add: s1_def put_ansi_def length_js_set)
      have g: "\<forall>j<i. js_get (ansi (colors s1)) j = js_get (ansi (colors s)) j"
        by (simp add: s1_def put_ansi_def js_get_js_set)
      from ih a b l g show ?thesis by (auto simp: less_Suc_eq)
    next
      case None
      show ?thesis
      proof (cases "parseColor_undefined (ctx s) (js_index ext (i - 16)) (allowTransparency s)")
        case (Inl e)
        then have "s' = s"
          using "1.prems" True None by (simp add: extendedAnsi_loop.simps [of L ext n i s])
        then show ?thesis by (auto intro: exI [of _ "ansi (colors s)"])
      next
        case (Inr x)
        define s1 where "s1 = s\<lparr>colors := (colors s)\<lparr>ansi := js_set (ansi (colors s)) i x\<rparr>\<rparr>"
        have run: "extendedAnsi_loop L ext n (Suc i) s1 = (c, s')"
          using "1.prems" True None Inr
          by (simp add: extendedAnsi_loop.simps [of L ext n i s] s1_def)
        note ih = "1.IH"(1) [OF True None Inr run [unfolded s1_def], folded s1_def]
        have a: "ctx s1 = ctx s" "allowTransparency s1 = allowTransparency s"
          "contrastCache s1 = contrastCache s" "restoreColors s1 = restoreColors s"
          by (simp_all add: s1_def)
        have b: "\<exists>xs. colors s1 = (colors s)\<lparr>ansi := xs\<rparr>"
          by (simp add: s1_def) blast
        have l: "length (ansi (colors s)) \<le> length (ansi (colors s1))"
          by (simp add: s1_def length_js_set)
        have g: "\<forall>j<i. js_get (ansi (colors s1)) j = js_get (ansi (colors s)) j"
          by (simp add: s1_def js_get_js_set)
        from ih a b l g show ?thesis by (auto simp: less_Suc_eq)
      qed
    qed
  qed
qed

lemma js_ext:
  assumes "length xs = length ys" and "\<And>j. js_get xs j = js_get ys j"
  shows "xs = ys"
proof (rule nth_equalityI)
  show "length xs = length ys" by fact
next
  fix i assume "i < length xs"
  then show "xs ! i = ys ! i" using assms(1) assms(2) [of i] by (simp add: js_get_def)
qed

lemma loop_idem:
  "extendedAnsi_loop L ext n i s = (c, s') \<Longrightarrow> ctx t = ctx s \<Longrightarrow>
   allowTransparency t = allowTransparency s \<Longrightarrow> colors t = colors s' \<Longrightarrow>
   \<exists>t'. extendedAnsi_loop L ext n i t = (c, t') \<and> colors t' = colors s'"
proof (induction L ext n i s arbitrary: c s' t rule: extendedAnsi_loop.induct)
  case (1 L ext n i s)
  note ctx = \<open>ctx t = ctx s\<close> and tr = \<open>allowTransparency t = allowTransparency s\<close>
    and col = \<open>colors t = colors s'\<close>
  show ?case
  proof (cases "i < n")
    case False
    then have "s' = s" "c = Normal"
      using "1.prems"(1) by (simp_all add: extendedAnsi_loop.simps [of L ext n i s])
    then show ?thesis
      using False col by (simp add: extendedAnsi_loop.simps [of L ext n i t])
  next
    case True
    show ?thesis
    proof (cases "js_index (DEFAULT_ANSI_COLORS L) i")
      case (Some fb)
      define s1 where "s1 = assign (put_ansi i) (js_index ext (i - 16)) fb (allowTransparency s) s"
      define t1 where "t1 = assign (put_ansi i) (js_index ext (i - 16)) fb (allowTransparency t) t"
      define x where "x = fst (parseColor (ctx s) (js_index ext (i - 16)) fb (allowTransparency s))"
      have run: "extendedAnsi_loop L ext n (Suc i) s1 = (c, s')"
        using "1.prems"(1) True Some
        by (simp add: extendedAnsi_loop.simps [of L ext n i s] s1_def)
      from loop_frame [OF run]
      have len: "length (ansi (colors s1)) \<le> length (ansi (colors s'))"
        and get: "js_get (ansi (colors s')) i = js_get (ansi (colors s1)) i"
        by auto
      have "js_get (ansi (colors s1)) i = Some x"
        by (simp add: s1_def put_ansi_def js_get_js_set x_def)
      moreover have "i < length (ansi (colors s1))"
        by (simp add: s1_def put_ansi_def length_js_set)
      ultimately have same: "js_set (ansi (colors s')) i (Some x) = ansi (colors s')"
        using len get by (intro js_set_same) simp_all
      have "colors t1 = put_ansi i x (colors s')"
        by (simp add: t1_def x_def ctx tr col)
      then have col1: "colors t1 = colors s'" by (simp add: put_ansi_def same)
      have "ctx t1 = ctx s1" "allowTransparency t1 = allowTransparency s1"
        by (simp_all add: t1_def s1_def ctx tr)
      from "1.IH"(2) [OF True Some run [unfolded s1_def] this [unfolded s1_def] col1]
      obtain t' where "extendedAnsi_loop L ext n (Suc i) t1 = (c, t')" "colors t' = colors s'"
        by blast
      then show ?thesis
        using True Some by (simp add: extendedAnsi_loop.simps [of L ext n i t] t1_def)
    next
      case None
      show ?thesis
      proof (cases "parseColor_undefined (ctx s) (js_index ext (i - 16)) (allowTransparency s)")
        case (Inl e)
        then have "s' = s" "c = Throw e"
          using "1.prems"(1) True None
          by (simp_all add: extendedAnsi_loop.simps [of L ext n i s])
        then show ?thesis
          using True None Inl col ctx tr
          by (simp add: extendedAnsi_loop.simps [of L ext n i t])
      next
        case (Inr x)
        define s1 where "s1 = s\<lparr>colors := (colors s)\<lparr>ansi := js_set (ansi (colors s)) i x\<rparr>\<rparr>"
        define t1 where "t1 = t\<lparr>colors := (colors t)\<lparr>ansi := js_set (ansi (colors t)) i x\<rparr>\<rparr>"
        have run: "extendedAnsi_loop L ext n (Suc i) s1 = (c, s')"
          using "1.prems"(1) True None Inr
          by (simp add: extendedAnsi_loop.simps [of L ext n i s] s1_def)
        from loop_frame [OF run]
        have len: "length (ansi (colors s1)) \<le> length (ansi (colors s'))"
          and get: "js_get (ansi (colors s')) i = js_get (ansi (colors s1)) i"
          by auto
        have "js_get (ansi (colors s1)) i = x"
          by (simp add: s1_def js_get_js_set)
        moreover have "i < length (ansi (colors s1))"
          by (simp add: s1_def length_js_set)
        ultimately have same: "js_set (ansi (colors s')) i x = ansi (colors s')"
          using len get by (intro js_set_same) simp_all
        have col1: "colors t1 = colors s'" by (simp add: t1_def col same)
        have "ctx t1 = ctx s1" "allowTransparency t1 = allowTransparency s1"
          by (simp_all add: t1_def s1_def ctx tr)
        from "1.IH"(1) [OF True None Inr run [unfolded s1_def] this [unfolded s1_def] col1]
        obtain t' where "extendedAnsi_loop L ext n (Suc i) t1 = (c, t')" "colors t' = colors s'"
          by blast
        then show ?thesis
          using True None Inr ctx tr
          by (simp add: extendedAnsi_loop.simps [of L ext n i t] t1_def)
      qed
    qed
  qed
qed

subsection \<open>The whole call\<close>

declare extendedAnsi_loop.simps [simp del]

lemma setTheme_colors_frame:
  assumes "setTheme_colors L th s = (c, s2)"
  shows "ctx s2 = ctx s" "allowTransparency s2 = allowTransparency s"
    "contrastCache s2 = contrastCache s" "restoreColors s2 = restoreColors s"
    "\<exists>xs. colors s2 = (colors (setTheme_fixed L th s))\<lparr>ansi := xs\<rparr>"
    "length (ansi (colors (setTheme_fixed L th s))) \<le> length (ansi (colors s2))"
    "\<forall>j<16. js_get (ansi (colors s2)) j = js_get (ansi (colors (setTheme_fixed L th s))) j"
proof -
  have "ctx s2 = ctx s \<and> allowTransparency s2 = allowTransparency s \<and>
    contrastCache s2 = contrastCache s \<and> restoreColors s2 = restoreColors s \<and>
    (\<exists>xs. colors s2 = (colors (setTheme_fixed L th s))\<lparr>ansi := xs\<rparr>) \<and>
    length (ansi (colors (setTheme_fixed L th s))) \<le> length (ansi (colors s2)) \<and>
    (\<forall>j<16. js_get (ansi (colors s2)) j = js_get (ansi (colors (setTheme_fixed L th s))) j)"
  proof (cases "theme_extendedAnsi th")
    case None
    then have "s2 = setTheme_fixed L th s" using assms by (simp add: setTheme_colors_def)
    then show ?thesis by (auto intro: exI [of _ "ansi (colors (setTheme_fixed L th s))"])
  next
    case (Some ext)
    then have "extendedAnsi_loop L ext (max (length ext + 16) 256) 16 (setTheme_fixed L th s)
                 = (c, s2)"
      using assms by (simp add: setTheme_colors_def)
    from loop_frame [OF this] show ?thesis by simp
  qed
  then show "ctx s2 = ctx s" "allowTransparency s2 = allowTransparency s"
    "contrastCache s2 = contrastCache s" "restoreColors s2 = restoreColors s"
    "\<exists>xs. colors s2 = (colors (setTheme_fixed L th s))\<lparr>ansi := xs\<rparr>"
    "length (ansi (colors (setTheme_fixed L th s))) \<le> length (ansi (colors s2))"
    "\<forall>j<16. js_get (ansi (colors s2)) j = js_get (ansi (colors (setTheme_fixed L th s))) j"
    by blast+
qed

lemma setTheme_fixed_fields:
  "foreground (colors (setTheme_fixed L th s)) =
     fst (parseColor (ctx s) (theme_foreground th) DEFAULT_FOREGROUND (allowTransparency s))"
  "background (colors (setTheme_fixed L th s)) =
     fst (parseColor (ctx s) (theme_background th) DEFAULT_BACKGROUND (allowTransparency s))"
  "cursor (colors (setTheme_fixed L th s)) =
     fst (parseColor (ctx s) (theme_cursor th) DEFAULT_CURSOR True)"
  "cursorAccent (colors (setTheme_fixed L th s)) =
     fst (parseColor (ctx s) (theme_cursorAccent th) DEFAULT_CURSOR_ACCENT True)"
  "selectionTransparent (colors (setTheme_fixed L th s)) =
     (let c = fst (parseColor (ctx s) (theme_selection th) DEFAULT_SELECTION True)
      in if isOpaque c then opacity L c opacity_literal else c)"
  "selectionOpaque (colors (setTheme_fixed L th s)) =
     blend L (fst (parseColor (ctx s) (theme_background th) DEFAULT_BACKGROUND
                     (allowTransparency s)))
       (fst (parseColor (ctx s) (theme_selection th) DEFAULT_SELECTION True))"
  "selectionForeground (colors (setTheme_fixed L th s)) =
     (case theme_selectionForeground th of
        None \<Rightarrow> None
      | Some str \<Rightarrow>
          if str = [] then None
          else let c = fst (parseColor (ctx s) (Some str) nullColor (allowTransparency s))
               in if c = nullColor then None else Some c)"
  by (subst colors_setTheme_fixed, simp)+

lemma setTheme_fixed_cong:
  assumes "ctx t = ctx s" "allowTransparency t = allowTransparency s"
  shows "colors (setTheme_fixed L th t) =
           (colors (setTheme_fixed L th s))\<lparr>ansi := ansi (colors (setTheme_fixed L th t))\<rparr>"
  by (rule IColorSet.equality) (simp_all add: setTheme_fixed_fields assms split: option.split)

lemma setTheme_eq:
  assumes "setTheme_colors L th s = (c, s2)"
  shows "setTheme L th s =
           (c, if c = Normal then updateRestoreColors (s2\<lparr>contrastCache := cache_clear\<rparr>) else s2)"
  using assms by (cases c) (simp_all add: setTheme_def)

lemma setTheme_colors_idem:
  assumes run: "setTheme_colors L th s = (c, s2)"
    and ctx: "ctx t = ctx s" and tr: "allowTransparency t = allowTransparency s"
    and col: "colors t = colors s2"
  shows "\<exists>t'. setTheme_colors L th t = (c, t') \<and> colors t' = colors s2"
proof -
  define s1 where "s1 = setTheme_fixed L th s"
  define t1 where "t1 = setTheme_fixed L th t"
  note fr = setTheme_colors_frame [OF run, folded s1_def]
  obtain xs where xs: "colors s2 = (colors s1)\<lparr>ansi := xs\<rparr>" using fr(5) by blast
  have len: "length (ansi (colors t1)) = length (ansi (colors s2))"
  proof -
    have "16 \<le> length (ansi (colors s1))" by (simp add: s1_def setTheme_fixed_length)
    then have "16 \<le> length (ansi (colors s2))" using fr(6) by simp
    then show ?thesis by (simp add: t1_def setTheme_fixed_length col)
  qed
  have get: "js_get (ansi (colors t1)) j = js_get (ansi (colors s2)) j" for j
  proof (cases "j < 16")
    case True
    then have "js_get (ansi (colors s2)) j = js_get (ansi (colors s1)) j" using fr(7) by simp
    then show ?thesis using True by (simp add: t1_def s1_def setTheme_fixed_get ctx tr)
  next
    case False
    then show ?thesis by (simp add: t1_def setTheme_fixed_get col)
  qed
  have an: "ansi (colors t1) = ansi (colors s2)" using len get by (rule js_ext)
  have "colors t1 = (colors s1)\<lparr>ansi := ansi (colors t1)\<rparr>"
    unfolding t1_def s1_def using ctx tr by (rule setTheme_fixed_cong)
  then have col1: "colors t1 = colors s2" by (simp add: an xs)
  show ?thesis
  proof (cases "theme_extendedAnsi th")
    case None
    then have "s2 = s1" "c = Normal" using run by (simp_all add: setTheme_colors_def s1_def)
    then show ?thesis using None col1 by (simp add: setTheme_colors_def t1_def)
  next
    case (Some ext)
    then have l: "extendedAnsi_loop L ext (max (length ext + 16) 256) 16 s1 = (c, s2)"
      using run by (simp add: setTheme_colors_def s1_def)
    have "ctx t1 = ctx s1" "allowTransparency t1 = allowTransparency s1"
      by (simp_all add: t1_def s1_def ctx tr)
    from loop_idem [OF l this col1] show ?thesis
      using Some by (simp add: setTheme_colors_def t1_def)
  qed
qed

text \<open>
  C10. \<^verbatim>\<open>setTheme\<close> is idempotent: from every state and for every theme, a second call
  with the same theme completes as the first did and leaves the colour set the first
  left, field by field.
\<close>

theorem setTheme_idempotent:
  "colors (snd (setTheme L th (snd (setTheme L th s)))) = colors (snd (setTheme L th s)) \<and>
   fst (setTheme L th (snd (setTheme L th s))) = fst (setTheme L th s)"
proof -
  obtain c s2 where run: "setTheme_colors L th s = (c, s2)" by (cases "setTheme_colors L th s")
  define r where "r = snd (setTheme L th s)"
  have r: "ctx r = ctx s" "allowTransparency r = allowTransparency s" "colors r = colors s2"
    using setTheme_colors_frame(1,2) [OF run]
    by (simp_all add: r_def setTheme_eq [OF run] updateRestoreColors_def)
  from setTheme_colors_idem [OF run r]
  obtain t' where t': "setTheme_colors L th r = (c, t')" "colors t' = colors s2" by blast
  have "colors (snd (setTheme L th r)) = colors s2"
    by (simp add: setTheme_eq [OF t'(1)] updateRestoreColors_def t'(2))
  moreover have "fst (setTheme L th r) = c" by (simp add: setTheme_eq [OF t'(1)])
  moreover have "fst (setTheme L th s) = c" by (simp add: setTheme_eq [OF run])
  ultimately show ?thesis using r(3) by (simp add: r_def)
qed

section \<open>The contrast cache\<close>

declare restore_loop.simps [simp del]

lemma restore_loop_frame:
  "ctx (restore_loop i s) = ctx s \<and> allowTransparency (restore_loop i s) = allowTransparency s \<and>
   contrastCache (restore_loop i s) = contrastCache s \<and>
   restoreColors (restore_loop i s) = restoreColors s \<and>
   console (restore_loop i s) = console s \<and>
   (\<exists>xs. colors (restore_loop i s) = (colors s)\<lparr>ansi := xs\<rparr>)"
proof (induction i s rule: restore_loop.induct)
  case (1 i s)
  show ?case
  proof (cases "i < length (restore_ansi (restoreColors s))")
    case True
    then show ?thesis
      using "1.IH" by (subst (1 2 3 4 5 6) restore_loop.simps) auto
  next
    case False
    then show ?thesis
      by (subst (1 2 3 4 5 6) restore_loop.simps) (auto intro: exI [of _ "ansi (colors s)"])
  qed
qed

lemma restoreColor_cache: "contrastCache (restoreColor slot s) = contrastCache s"
proof (cases slot)
  case None
  then show ?thesis by (simp add: restoreColor_def restore_loop_frame)
next
  case (Some x)
  then show ?thesis by (cases x) (simp_all add: restoreColor_def)
qed

text \<open>
  C1, as the code has it. A call of \<^verbatim>\<open>setTheme\<close> that returns leaves the contrast cache
  empty, whatever the theme and the state; so does the option change
  \<^verbatim>\<open>minimumContrastRatio\<close>. \<^verbatim>\<open>restoreColor\<close>, with or without a slot, does not touch
  the cache: it leaves it exactly as it found it.
\<close>

theorem contrast_cache_after:
  "(fst (setTheme L th s) = Normal \<longrightarrow> contrastCache (snd (setTheme L th s)) = Map.empty) \<and>
   contrastCache (onOptionsChange ''minimumContrastRatio'' x s) = Map.empty \<and>
   contrastCache (restoreColor slot s) = contrastCache s"
proof -
  obtain c s2 where run: "setTheme_colors L th s = (c, s2)" by (cases "setTheme_colors L th s")
  show ?thesis
    by (simp add: setTheme_eq [OF run] updateRestoreColors_def cache_clear_def
        onOptionsChange_def restoreColor_cache)
qed

section \<open>The selection colour\<close>

lemma round_half_even_eval:
  assumes "of_int m - 1 / 2 < x" "x < of_int m + 1 / 2"
  shows "round_half_even x = m"
proof -
  have f: "of_int \<lfloor>x\<rfloor> \<le> x" "x < of_int \<lfloor>x\<rfloor> + 1" by linarith+
  have "\<lfloor>x\<rfloor> = m \<or> \<lfloor>x\<rfloor> = m - 1"
  proof -
    have "(of_int \<lfloor>x\<rfloor> :: rat) < of_int m + 1 / 2" using f(1) assms(2) by linarith
    then have "(of_int \<lfloor>x\<rfloor> :: rat) < of_int (m + 1)" by simp
    then have a: "\<lfloor>x\<rfloor> < m + 1" by (simp only: of_int_less_iff)
    have "(of_int m :: rat) - 1 / 2 < of_int \<lfloor>x\<rfloor> + 1" using f(2) assms(1) by linarith
    then have "(of_int (m - 2) :: rat) < of_int \<lfloor>x\<rfloor>" by simp
    then have "m - 2 < \<lfloor>x\<rfloor>" by (simp only: of_int_less_iff)
    with a show ?thesis by linarith
  qed
  then show ?thesis
  proof
    assume e: "\<lfloor>x\<rfloor> = m"
    then have "x - of_int \<lfloor>x\<rfloor> < 1 / 2" using assms(2) by simp
    then show ?thesis by (simp add: round_half_even_def Let_def e)
  next
    assume e: "\<lfloor>x\<rfloor> = m - 1"
    then have "1 / 2 < x - of_int \<lfloor>x\<rfloor>" using assms(1) by simp
    then show ?thesis by (simp add: round_half_even_def Let_def e)
  qed
qed

lemma fl_3_10: "fl (3 / 10) = Finite (5404319552844595 / 18014398509481984)"
proof -
  have "round_half_even (3 / 10 / pow2 (- 2 - 52)) = 5404319552844595"
    by (rule round_half_even_eval) (simp_all add: pow2_def)
  from fl_eval [of "3 / 10" "- 2", OF _ _ _ _ _ this] show ?thesis by (simp add: pow2_def)
qed

lemma opacity_alpha: "Math_round (js_mul opacity_literal (Finite 255)) = Finite 77"
proof -
  have "round_half_even (5404319552844595 / 18014398509481984 * 255 / pow2 (6 - 52))
          = 5383208929591296"
    by (rule round_half_even_eval) (simp_all add: pow2_def)
  from fl_eval [of "5404319552844595 / 18014398509481984 * 255" 6, OF _ _ _ _ _ this]
  have "fl (5404319552844595 / 18014398509481984 * 255) = Finite (153 / 2)"
    by (simp add: pow2_def)
  moreover have "\<lfloor>153 / 2 + 1 / 2 :: rat\<rfloor> = 77" by simp
  ultimately show ?thesis
    by (simp add: opacity_literal_def fl_3_10 js_mul_def Math_round_def)
qed

lemma ToInt32_channel: "ToInt32 (channel k w) = drop_bit k w AND 0xFF"
  unfolding channel_def by (simp only: ToInt32_of_nat) simp

lemma shift_mask: "push_bit k (drop_bit k w AND 0xFF) = w AND push_bit k 0xFF" for w :: u32
  unfolding ff_mask by (rule bit_word_eqI) (auto simp: bit_simps)

lemma repack:
  "push_bit 24 (drop_bit 24 w AND 0xFF) OR push_bit 16 (drop_bit 16 w AND 0xFF)
     OR push_bit 8 (drop_bit 8 w AND 0xFF) OR a = (w AND 0xFFFFFF00) OR (a :: u32)"
proof -
  have "(push_bit 24 0xFF OR push_bit 16 0xFF OR push_bit 8 0xFF :: u32) = 0xFFFFFF00" by simp
  then have "w AND 0xFFFFFF00 = w AND push_bit 24 0xFF OR w AND push_bit 16 0xFF
               OR w AND push_bit 8 0xFF"
    by (simp only: flip: bit.conj_disj_distrib)
  then show ?thesis by (simp only: shift_mask or.assoc)
qed

lemma rgba_opacity:
  "rgba (opacity L c opacity_literal) = (rgba c AND 0xFFFFFF00) OR 0x4D"
proof -
  have "rgba (opacity L c opacity_literal) =
          toRgba (channel 24 (rgba c)) (channel 16 (rgba c)) (channel 8 (rgba c)) (Finite 77)"
    by (simp add: opacity_def Let_def opacity_alpha)
  also have "\<dots> = push_bit 24 (drop_bit 24 (rgba c) AND 0xFF)
                   OR push_bit 16 (drop_bit 16 (rgba c) AND 0xFF)
                   OR push_bit 8 (drop_bit 8 (rgba c) AND 0xFF) OR 77"
    unfolding toRgba_def ToInt32_channel by (simp only: ToInt32_numeral)
  also have "\<dots> = (rgba c AND 0xFFFFFF00) OR 0x4D" by (rule repack)
  finally show ?thesis .
qed

lemma not_opaque_opacity: "\<not> isOpaque (opacity L c opacity_literal)"
proof -
  have "((rgba c AND 0xFFFFFF00) OR 0x4D) AND 0xFF
          = (rgba c AND (0xFFFFFF00 AND 0xFF)) OR (0x4D AND 0xFF)"
    by (simp only: bit.conj_disj_distrib2 and.assoc)
  also have "\<dots> = 0x4D" by simp
  finally show ?thesis by (simp add: isOpaque_def rgba_opacity)
qed

lemma setTheme_selectionTransparent:
  "selectionTransparent (colors (snd (setTheme L th s))) =
     (let c = fst (parseColor (ctx s) (theme_selection th) DEFAULT_SELECTION True)
      in if isOpaque c then opacity L c opacity_literal else c)"
proof -
  obtain c s2 where run: "setTheme_colors L th s = (c, s2)" by (cases "setTheme_colors L th s")
  obtain xs where "colors s2 = (colors (setTheme_fixed L th s))\<lparr>ansi := xs\<rparr>"
    using setTheme_colors_frame(5) [OF run] by blast
  then show ?thesis
    by (simp add: setTheme_eq [OF run] updateRestoreColors_def setTheme_fixed_fields)
qed

text \<open>
  C4. When the theme's selection string resolves, with transparency allowed, to a fully
  opaque colour, \<^verbatim>\<open>setTheme\<close> leaves in \<^verbatim>\<open>selectionTransparent\<close> that colour at opacity
  0.3: its red, green and blue, and the alpha byte \<^verbatim>\<open>0x4D\<close>, which is
  \<^verbatim>\<open>Math.round(0.3 * 255)\<close>. Whatever the theme, \<^verbatim>\<open>selectionTransparent\<close> is not fully
  opaque after \<^verbatim>\<open>setTheme\<close>.
\<close>

theorem selection_forced_translucent:
  "(isOpaque (fst (parseColor (ctx s) (theme_selection th) DEFAULT_SELECTION True)) \<longrightarrow>
      selectionTransparent (colors (snd (setTheme L th s))) =
        opacity L (fst (parseColor (ctx s) (theme_selection th) DEFAULT_SELECTION True))
          opacity_literal \<and>
      rgba (selectionTransparent (colors (snd (setTheme L th s)))) =
        (rgba (fst (parseColor (ctx s) (theme_selection th) DEFAULT_SELECTION True))
           AND 0xFFFFFF00) OR 0x4D) \<and>
   \<not> isOpaque (selectionTransparent (colors (snd (setTheme L th s))))"
  by (simp add: setTheme_selectionTransparent Let_def rgba_opacity not_opaque_opacity)

section \<open>The theorems on the example host\<close>

lemma setTheme_normal_no_extendedAnsi:
  "theme_extendedAnsi th = None \<Longrightarrow> fst (setTheme L th s) = Normal"
  by (simp add: setTheme_def setTheme_colors_def)

lemma ctx_example_manager [simp]: "ctx example_manager = example_context"
  by (simp add: example_manager_def constructed_def updateRestoreColors_def)

lemma parse_white:
  "parseColor example_context (Some ''#ffffff'') fb tr = (\<lparr>css = ''#ffffff'', rgba = 0xFFFFFFFF\<rparr>, [])"
  by (simp add: parseColor_def example_context_def opaque_color_def toRgba_def ToInt32_unsigned)

theorem contrast_cache_after_witness:
  "fst (setTheme example_lib empty_theme
          (step example_lib (CacheSet (0x000000FF, 0xFFFFFFFF) DEFAULT_FOREGROUND) example_manager))
     = Normal \<and>
   contrastCache (step example_lib (CacheSet (0x000000FF, 0xFFFFFFFF) DEFAULT_FOREGROUND)
                    example_manager) (0x000000FF, 0xFFFFFFFF) = Some DEFAULT_FOREGROUND \<and>
   contrastCache (snd (setTheme example_lib empty_theme
          (step example_lib (CacheSet (0x000000FF, 0xFFFFFFFF) DEFAULT_FOREGROUND) example_manager)))
     = Map.empty"
  using contrast_cache_after [of example_lib empty_theme
      "step example_lib (CacheSet (0x000000FF, 0xFFFFFFFF) DEFAULT_FOREGROUND) example_manager"]
    setTheme_normal_no_extendedAnsi [of empty_theme example_lib]
  by (simp add: empty_theme_def step_def cache_set_def)

theorem restoreColor_keeps_cache_counterexample:
  "contrastCache
     (restoreColor None
        (step example_lib (CacheSet (0x000000FF, 0xFFFFFFFF) DEFAULT_FOREGROUND) example_manager))
     (0x000000FF, 0xFFFFFFFF) = Some DEFAULT_FOREGROUND \<and>
   contrastCache
     (restoreColor (Some BACKGROUND)
        (step example_lib (CacheSet (0x000000FF, 0xFFFFFFFF) DEFAULT_FOREGROUND) example_manager))
     \<noteq> Map.empty"
proof -
  have "contrastCache
     (step example_lib (CacheSet (0x000000FF, 0xFFFFFFFF) DEFAULT_FOREGROUND) example_manager)
     (0x000000FF, 0xFFFFFFFF) = Some DEFAULT_FOREGROUND"
    by (simp add: step_def cache_set_def)
  then show ?thesis by (auto simp: restoreColor_cache)
qed

theorem selection_forced_translucent_witness:
  "isOpaque (fst (parseColor (ctx example_manager) (Some ''#ffffff'') DEFAULT_SELECTION True)) \<and>
   selectionTransparent
     (colors (snd (setTheme example_lib (empty_theme\<lparr>theme_selection := Some ''#ffffff''\<rparr>)
                     example_manager)))
     = \<lparr>css = ''#ffffff4d'', rgba = 0xFFFFFF4D\<rparr>"
proof -
  have o: "isOpaque \<lparr>css = ''#ffffff'', rgba = 0xFFFFFFFF\<rparr>" by (simp add: isOpaque_def)
  have ch: "channel 24 0xFFFFFFFF = Finite 255" "channel 16 0xFFFFFFFF = Finite 255"
    "channel 8 0xFFFFFFFF = Finite 255"
    by (simp_all add: channel_def)
  have op: "opacity example_lib \<lparr>css = ''#ffffff'', rgba = 0xFFFFFFFF\<rparr> opacity_literal
              = \<lparr>css = ''#ffffff4d'', rgba = 0xFFFFFF4D\<rparr>"
    by (simp add: opacity_def Let_def opacity_alpha ch example_lib_def example_hex_def
        trunc_def toRgba_def ToInt32_def)
  show ?thesis
    using selection_forced_translucent [of example_manager
        "empty_theme\<lparr>theme_selection := Some ''#ffffff''\<rparr>" example_lib]
    by (simp add: parse_white o op)
qed

theorem setTheme_idempotent_witness:
  "colors (snd (setTheme example_lib (empty_theme\<lparr>theme_extendedAnsi := Some [''#336699'']\<rparr>)
             (snd (setTheme example_lib (empty_theme\<lparr>theme_extendedAnsi := Some [''#336699'']\<rparr>)
                     example_manager))))
     = colors (snd (setTheme example_lib (empty_theme\<lparr>theme_extendedAnsi := Some [''#336699'']\<rparr>)
                      example_manager))"
  using setTheme_idempotent [of example_lib "empty_theme\<lparr>theme_extendedAnsi := Some [''#336699'']\<rparr>"
      example_manager]
  by simp

section \<open>The size of the palette\<close>

subsection \<open>The loop of lines 172-174 inside the default palette\<close>

lemma js_index_DEFAULT:
  "js_index (DEFAULT_ANSI_COLORS L) i =
     (if i < 256 then Some (DEFAULT_ANSI_COLORS L ! i) else None)"
  by (simp add: js_index_def length_DEFAULT_ANSI_COLORS)

lemma loop_in_palette:
  "n \<le> 256 \<Longrightarrow> extendedAnsi_loop L ext n i s = (c, s') \<Longrightarrow>
     c = Normal \<and>
     length (ansi (colors s')) = (if i < n then max (length (ansi (colors s))) n
                                   else length (ansi (colors s))) \<and>
     (\<forall>j. js_get (ansi (colors s')) j =
          (if i \<le> j \<and> j < n
           then Some (fst (parseColor (ctx s) (js_index ext (j - 16)) (DEFAULT_ANSI_COLORS L ! j)
                             (allowTransparency s)))
           else js_get (ansi (colors s)) j))"
proof (induction L ext n i s arbitrary: c s' rule: extendedAnsi_loop.induct)
  case (1 L ext n i s)
  show ?case
  proof (cases "i < n")
    case False
    then show ?thesis
      using "1.prems"(2) by (auto simp: extendedAnsi_loop.simps [of L ext n i s])
  next
    case True
    then have i: "i < 256" using "1.prems"(1) by simp
    then have fb: "js_index (DEFAULT_ANSI_COLORS L) i = Some (DEFAULT_ANSI_COLORS L ! i)"
      by (simp add: js_index_DEFAULT)
    define s1 where "s1 = assign (put_ansi i) (js_index ext (i - 16)) (DEFAULT_ANSI_COLORS L ! i)
                            (allowTransparency s) s"
    have run: "extendedAnsi_loop L ext n (Suc i) s1 = (c, s')"
      using "1.prems"(2) True fb by (simp add: extendedAnsi_loop.simps [of L ext n i s] s1_def)
    note ih = "1.IH"(2) [OF True fb "1.prems"(1) run [unfolded s1_def], folded s1_def]
    have a: "ctx s1 = ctx s" "allowTransparency s1 = allowTransparency s"
      by (simp_all add: s1_def)
    have l: "length (ansi (colors s1)) = max (length (ansi (colors s))) (Suc i)"
      by (simp add: s1_def put_ansi_def length_js_set)
    have g: "js_get (ansi (colors s1)) j =
        (if j = i then Some (fst (parseColor (ctx s) (js_index ext (i - 16))
                                    (DEFAULT_ANSI_COLORS L ! i) (allowTransparency s)))
         else js_get (ansi (colors s)) j)" for j
      by (simp add: s1_def put_ansi_def js_get_js_set)
    from ih have c: "c = Normal" by simp
    from ih have "length (ansi (colors s')) = (if Suc i < n then max (length (ansi (colors s1))) n
                                   else length (ansi (colors s1)))" by simp
    then have len: "length (ansi (colors s')) = max (length (ansi (colors s))) n"
      using True by (auto simp: l)
    have get: "js_get (ansi (colors s')) j =
          (if i \<le> j \<and> j < n
           then Some (fst (parseColor (ctx s) (js_index ext (j - 16)) (DEFAULT_ANSI_COLORS L ! j)
                             (allowTransparency s)))
           else js_get (ansi (colors s)) j)" for j
    proof -
      from ih have "js_get (ansi (colors s')) j =
          (if Suc i \<le> j \<and> j < n
           then Some (fst (parseColor (ctx s1) (js_index ext (j - 16)) (DEFAULT_ANSI_COLORS L ! j)
                             (allowTransparency s1)))
           else js_get (ansi (colors s1)) j)" by blast
      then show ?thesis using True by (auto simp: a g)
    qed
    from c len get True show ?thesis by simp
  qed
qed

subsection \<open>Calls that stay inside the palette\<close>

lemma restore_loop_ansi:
  "length (ansi (colors (restore_loop i s))) =
     (if i < length (restore_ansi (restoreColors s))
      then max (length (ansi (colors s))) (length (restore_ansi (restoreColors s)))
      else length (ansi (colors s))) \<and>
   (\<forall>j. js_get (ansi (colors (restore_loop i s))) j =
        (if i \<le> j \<and> j < length (restore_ansi (restoreColors s))
         then restore_ansi (restoreColors s) ! j
         else js_get (ansi (colors s)) j))"
proof (induction i s rule: restore_loop.induct)
  case (1 i s)
  show ?case
  proof (cases "i < length (restore_ansi (restoreColors s))")
    case False
    then show ?thesis by (subst (1 2) restore_loop.simps) auto
  next
    case True
    define s1 where "s1 = s\<lparr>colors := (colors s)\<lparr>ansi :=
               js_set (ansi (colors s)) i (restore_ansi (restoreColors s) ! i)\<rparr>\<rparr>"
    have e: "restore_loop i s = restore_loop (Suc i) s1"
      using True by (subst restore_loop.simps) (simp add: s1_def)
    have r: "restoreColors s1 = restoreColors s" by (simp add: s1_def)
    note ih = "1.IH" [OF True, folded s1_def, unfolded r]
    have l: "length (ansi (colors s1)) = max (length (ansi (colors s))) (Suc i)"
      by (simp add: s1_def length_js_set)
    have g: "js_get (ansi (colors s1)) j =
               (if j = i then restore_ansi (restoreColors s) ! i else js_get (ansi (colors s)) j)"
      for j by (simp add: s1_def js_get_js_set)
    show ?thesis
      unfolding e using ih True by (auto simp: l g)
  qed
qed

lemma full_palette_iff:
  "full_palette xs \<longleftrightarrow> length xs = 256 \<and> (\<forall>j<256. js_get xs j \<noteq> None)"
  by (auto simp: full_palette_def list_all_length js_get_def)

lemma full_palette_constructed:
  "full_palette (ansi (colors (constructed L c tr)))"
  "full_palette (restore_ansi (restoreColors (constructed L c tr)))"
  by (simp_all add: constructed_def updateRestoreColors_def full_palette_def
      length_DEFAULT_ANSI_COLORS list_all_length)

lemma setTheme_in_palette:
  assumes th: "case theme_extendedAnsi th of None \<Rightarrow> True | Some xs \<Rightarrow> length xs \<le> 240"
    and inv: "full_palette (ansi (colors s))"
  shows "fst (setTheme L th s) = Normal"
    and "full_palette (ansi (colors (snd (setTheme L th s))))"
    and "full_palette (restore_ansi (restoreColors (snd (setTheme L th s))))"
proof -
  define s1 where "s1 = setTheme_fixed L th s"
  have l1: "length (ansi (colors s1)) = 256"
    using inv by (simp add: s1_def setTheme_fixed_length full_palette_iff)
  have g1: "js_get (ansi (colors s1)) j \<noteq> None" if "j < 256" for j
    using inv that by (simp add: s1_def setTheme_fixed_get full_palette_iff)
  obtain c s2 where run: "setTheme_colors L th s = (c, s2)" by (cases "setTheme_colors L th s")
  have "c = Normal \<and> length (ansi (colors s2)) = 256 \<and> (\<forall>j<256. js_get (ansi (colors s2)) j \<noteq> None)"
  proof (cases "theme_extendedAnsi th")
    case None
    then have "s2 = s1" "c = Normal" using run by (simp_all add: setTheme_colors_def s1_def)
    then show ?thesis using l1 g1 by simp
  next
    case (Some xs)
    then have n: "max (length xs + 16) 256 = 256" using th by simp
    have "extendedAnsi_loop L xs 256 16 s1 = (c, s2)"
      using run Some by (simp add: setTheme_colors_def s1_def n)
    from loop_in_palette [OF _ this] show ?thesis using l1 g1 by auto
  qed
  then have c: "c = Normal" and full: "full_palette (ansi (colors s2))"
    by (simp_all add: full_palette_iff)
  show "fst (setTheme L th s) = Normal" by (simp add: setTheme_eq [OF run] c)
  show "full_palette (ansi (colors (snd (setTheme L th s))))"
    using full by (simp add: setTheme_eq [OF run] c updateRestoreColors_def)
  show "full_palette (restore_ansi (restoreColors (snd (setTheme L th s))))"
    using full by (simp add: setTheme_eq [OF run] c updateRestoreColors_def)
qed

lemma restoreColor_restoreColors [simp]: "restoreColors (restoreColor slot s) = restoreColors s"
proof (cases slot)
  case None
  then show ?thesis by (simp add: restoreColor_def restore_loop_frame)
next
  case (Some x)
  then show ?thesis by (cases x) (simp_all add: restoreColor_def)
qed

lemma restoreColor_in_palette:
  assumes slot: "case slot of Some (AnsiIndex n) \<Rightarrow> n < 256 | _ \<Rightarrow> True"
    and inv: "full_palette (ansi (colors s))" "full_palette (restore_ansi (restoreColors s))"
  shows "full_palette (ansi (colors (restoreColor slot s)))"
proof (cases slot)
  case None
  have "length (restore_ansi (restoreColors s)) = 256"
    and "\<forall>j<256. restore_ansi (restoreColors s) ! j \<noteq> None"
    using inv(2) by (simp_all add: full_palette_def list_all_length)
  then show ?thesis
    using inv(1) None restore_loop_ansi [of 0 s]
    by (simp add: restoreColor_def full_palette_iff)
next
  case (Some x)
  show ?thesis
  proof (cases x)
    case (AnsiIndex n)
    then have n: "n < 256" using slot Some by simp
    then have "js_get (restore_ansi (restoreColors s)) n \<noteq> None"
      using inv(2) by (simp add: full_palette_iff)
    then show ?thesis
      using inv(1) n Some AnsiIndex
      by (simp add: restoreColor_def full_palette_iff length_js_set js_get_js_set)
  qed (use Some inv(1) in \<open>simp_all add: restoreColor_def\<close>)
qed

lemma step_in_palette:
  assumes "in_palette op"
    and "full_palette (ansi (colors s))" "full_palette (restore_ansi (restoreColors s))"
  shows "full_palette (ansi (colors (step L op s))) \<and>
         full_palette (restore_ansi (restoreColors (step L op s)))"
proof (cases op)
  case (SetTheme th)
  then show ?thesis
    using assms setTheme_in_palette(2,3) [of th s L] by (simp add: step_def in_palette_def)
next
  case (RestoreColor slot)
  then show ?thesis
    using assms restoreColor_in_palette [of slot s] by (simp add: step_def in_palette_def)
next
  case (OnOptionsChange k x)
  then show ?thesis using assms by (simp add: step_def onOptionsChange_def)
next
  case (CacheSet k x)
  then show ?thesis using assms by (simp add: step_def)
qed

lemma run_in_palette:
  assumes "list_all in_palette ops"
    and "full_palette (ansi (colors s))" "full_palette (restore_ansi (restoreColors s))"
  shows "full_palette (ansi (colors (run L ops s))) \<and>
         full_palette (restore_ansi (restoreColors (run L ops s)))"
  using assms
proof (induction ops arbitrary: s)
  case Nil
  then show ?case by (simp add: run_def)
next
  case (Cons op ops)
  from Cons.prems have "in_palette op" "list_all in_palette ops" by simp_all
  from step_in_palette [OF this(1) Cons.prems(2,3), of L] Cons.IH [OF this(2)]
  show ?case by (simp add: run_def)
qed

text \<open>
  C3, as the code has it. From construction on, through every sequence of calls that stay
  inside the palette (\<^verbatim>\<open>setTheme\<close> with a theme whose \<^verbatim>\<open>extendedAnsi\<close>, if present, has at
  most 240 entries; \<^verbatim>\<open>restoreColor\<close> without a slot, with a reserved slot, or with a
  slot of 0..255; option changes; cache entries), \<^verbatim>\<open>ansi\<close> holds exactly 256 entries and
  each of them is a colour.
\<close>

theorem palette_size_invariant:
  "list_all in_palette ops \<Longrightarrow> full_palette (ansi (colors (run L ops (constructed L c tr))))"
  using run_in_palette [of ops "constructed L c tr" L] full_palette_constructed [of L c tr]
  by simp

subsection \<open>Calls that leave the palette\<close>

lemma loop_upto_256:
  "i \<le> 256 \<Longrightarrow> 256 \<le> n \<Longrightarrow>
     extendedAnsi_loop L ext n i s
       = extendedAnsi_loop L ext n 256 (snd (extendedAnsi_loop L ext 256 i s))"
proof (induction "256 - i" arbitrary: i s)
  case 0
  then have "i = 256" by simp
  then show ?case by (simp add: extendedAnsi_loop.simps [of L ext 256 256 s])
next
  case (Suc k)
  then have i: "i < 256" "i < n" by simp_all
  then have fb: "js_index (DEFAULT_ANSI_COLORS L) i = Some (DEFAULT_ANSI_COLORS L ! i)"
    by (simp add: js_index_DEFAULT)
  define s1 where "s1 = assign (put_ansi i) (js_index ext (i - 16)) (DEFAULT_ANSI_COLORS L ! i)
                          (allowTransparency s) s"
  have a: "extendedAnsi_loop L ext n i s = extendedAnsi_loop L ext n (Suc i) s1"
    using i fb by (simp add: extendedAnsi_loop.simps [of L ext n i s] s1_def)
  have b: "extendedAnsi_loop L ext 256 i s = extendedAnsi_loop L ext 256 (Suc i) s1"
    using i fb by (simp add: extendedAnsi_loop.simps [of L ext 256 i s] s1_def)
  have "k = 256 - Suc i" using Suc.hyps(2) by simp
  from Suc.hyps(1) [OF this, of s1] i Suc.prems(2) show ?case by (simp add: a b)
qed

lemma length_ansi_example_manager: "length (ansi (colors example_manager)) = 256"
  using full_palette_constructed(1) [of example_lib example_context False]
  by (simp add: example_manager_def full_palette_def)

lemma allowTransparency_example_manager [simp]: "allowTransparency example_manager = False"
  by (simp add: example_manager_def constructed_def updateRestoreColors_def)

theorem palette_size_invariant_witness:
  "list_all in_palette
     [SetTheme (empty_theme\<lparr>theme_extendedAnsi := Some [''#336699'']\<rparr>),
      RestoreColor (Some (AnsiIndex 255)), RestoreColor None, RestoreColor (Some CURSOR)] \<and>
   full_palette (ansi (colors (run example_lib
     [SetTheme (empty_theme\<lparr>theme_extendedAnsi := Some [''#336699'']\<rparr>),
      RestoreColor (Some (AnsiIndex 255)), RestoreColor None, RestoreColor (Some CURSOR)]
     example_manager)))"
proof -
  have a: "list_all in_palette
     [SetTheme (empty_theme\<lparr>theme_extendedAnsi := Some [''#336699'']\<rparr>),
      RestoreColor (Some (AnsiIndex 255)), RestoreColor None, RestoreColor (Some CURSOR)]"
    by (simp add: in_palette_def)
  from palette_size_invariant [OF a, of example_lib example_context False] a
  show ?thesis by (simp add: example_manager_def)
qed

theorem palette_grows_counterexample:
  "fst (setTheme example_lib (empty_theme\<lparr>theme_extendedAnsi := Some (replicate 241 ''#ffffff'')\<rparr>)
          example_manager) = Normal \<and>
   length (ansi (colors (run example_lib
     [SetTheme (empty_theme\<lparr>theme_extendedAnsi := Some (replicate 241 ''#ffffff'')\<rparr>)]
     example_manager))) = 257 \<and>
   length (ansi (colors (run example_lib [RestoreColor (Some (AnsiIndex 300))] example_manager)))
     = 301 \<and>
   js_get (ansi (colors (run example_lib [RestoreColor (Some (AnsiIndex 300))] example_manager)))
     300 = None"
proof -
  define th where "th = empty_theme\<lparr>theme_extendedAnsi := Some (replicate 241 ''#ffffff'')\<rparr>"
  define s1 where "s1 = setTheme_fixed example_lib th example_manager"
  define t where "t = snd (extendedAnsi_loop example_lib (replicate 241 ''#ffffff'') 256 16 s1)"
  obtain c where t: "extendedAnsi_loop example_lib (replicate 241 ''#ffffff'') 256 16 s1 = (c, t)"
    by (cases "extendedAnsi_loop example_lib (replicate 241 ''#ffffff'') 256 16 s1")
      (simp add: t_def)
  have l1: "length (ansi (colors s1)) = 256"
    by (simp add: s1_def setTheme_fixed_length length_ansi_example_manager)
  have lt: "length (ansi (colors t)) = 256"
    using loop_in_palette [OF _ t] l1 by simp
  have ft: "ctx t = example_context" "allowTransparency t = False"
    using loop_frame [OF t] by (simp_all add: s1_def)
  define u where "u = t\<lparr>colors := (colors t)\<lparr>ansi :=
      js_set (ansi (colors t)) 256 (Some \<lparr>css = ''#ffffff'', rgba = 0xFFFFFFFF\<rparr>)\<rparr>\<rparr>"
  have p: "parseColor_undefined example_context (js_index (replicate 241 ''#ffffff'') 240)
             False = Inr (Some \<lparr>css = ''#ffffff'', rgba = 0xFFFFFFFF\<rparr>)"
    by (simp add: parseColor_undefined_def js_index_def example_context_def opaque_color_def
        toRgba_def ToInt32_unsigned)
  have "extendedAnsi_loop example_lib (replicate 241 ''#ffffff'') 257 256 t = (Normal, u)"
    by (simp add: extendedAnsi_loop.simps [of _ _ 257 256 t]
        extendedAnsi_loop.simps [of _ _ 257 257] js_index_DEFAULT ft p u_def)
  moreover have "extendedAnsi_loop example_lib (replicate 241 ''#ffffff'') 257 16 s1
     = extendedAnsi_loop example_lib (replicate 241 ''#ffffff'') 257 256 t"
    using loop_upto_256 [of 16 257 example_lib "replicate 241 ''#ffffff''" s1]
    by (simp add: t_def)
  ultimately have run: "setTheme_colors example_lib th example_manager = (Normal, u)"
    by (simp add: setTheme_colors_def th_def s1_def)
  have lu: "length (ansi (colors u)) = 257" by (simp add: u_def length_js_set lt)
  have a: "fst (setTheme example_lib th example_manager) = Normal"
    by (simp add: setTheme_eq [OF run])
  have b: "length (ansi (colors (run example_lib [SetTheme th] example_manager))) = 257"
    by (simp add: run_def step_def setTheme_eq [OF run] updateRestoreColors_def lu)
  have r: "restore_ansi (restoreColors example_manager) = ansi (colors example_manager)"
    by (simp add: example_manager_def constructed_def updateRestoreColors_def)
  have c: "length (ansi (colors (run example_lib [RestoreColor (Some (AnsiIndex 300))]
             example_manager))) = 301"
    by (simp add: run_def step_def restoreColor_def length_js_set length_ansi_example_manager)
  have d: "js_get (ansi (colors (run example_lib [RestoreColor (Some (AnsiIndex 300))]
             example_manager))) 300 = None"
    by (simp add: run_def step_def restoreColor_def js_get_js_set r)
      (simp add: js_get_def length_ansi_example_manager)
  from a b c d show ?thesis by (simp add: th_def)
qed

section \<open>The snapshot that \<^verbatim>\<open>restoreColor\<close> restores\<close>









section \<open>Themes on the example host, and the empty theme\<close>

lemma setTheme_get_extended:
  assumes ext: "theme_extendedAnsi th = Some xs" and len: "length xs \<le> 240"
  shows "js_get (ansi (colors (snd (setTheme L th s)))) j =
           (if 16 \<le> j \<and> j < 256
            then Some (fst (parseColor (ctx s) (js_index xs (j - 16)) (DEFAULT_ANSI_COLORS L ! j)
                              (allowTransparency s)))
            else js_get (ansi (colors (setTheme_fixed L th s))) j)"
proof -
  define s1 where "s1 = setTheme_fixed L th s"
  obtain c s2 where run: "setTheme_colors L th s = (c, s2)" by (cases "setTheme_colors L th s")
  have n: "max (length xs + 16) 256 = 256" using len by simp
  have loop: "extendedAnsi_loop L xs 256 16 s1 = (c, s2)"
    using run ext by (simp add: setTheme_colors_def s1_def n)
  have f: "ctx s1 = ctx s" "allowTransparency s1 = allowTransparency s" by (simp_all add: s1_def)
  from loop_in_palette [OF _ loop]
  have c: "c = Normal"
    and g: "js_get (ansi (colors s2)) j =
              (if 16 \<le> j \<and> j < 256
               then Some (fst (parseColor (ctx s1) (js_index xs (j - 16)) (DEFAULT_ANSI_COLORS L ! j)
                                 (allowTransparency s1)))
               else js_get (ansi (colors s1)) j)"
    by simp_all
  show ?thesis
    by (simp add: setTheme_eq [OF run] c updateRestoreColors_def g f) (simp add: s1_def)
qed

lemma setTheme_get_absent:
  assumes "theme_extendedAnsi th = None"
  shows "js_get (ansi (colors (snd (setTheme L th s)))) j =
           (if j < 16
            then Some (fst (parseColor (ctx s) (theme_ansi th ! j) (DEFAULT_ANSI_COLORS L ! j)
                              (allowTransparency s)))
            else js_get (ansi (colors s)) j)"
  using assms
  by (simp add: setTheme_def setTheme_colors_def updateRestoreColors_def setTheme_fixed_get)



lemma not_opaque_DEFAULT_SELECTION: "\<not> isOpaque DEFAULT_SELECTION"
  by (simp add: isOpaque_def DEFAULT_SELECTION_def)

lemma setTheme_empty_theme:
  "foreground (colors (snd (setTheme L empty_theme s))) = DEFAULT_FOREGROUND"
  "background (colors (snd (setTheme L empty_theme s))) = DEFAULT_BACKGROUND"
  "cursor (colors (snd (setTheme L empty_theme s))) = DEFAULT_CURSOR"
  "cursorAccent (colors (snd (setTheme L empty_theme s))) = DEFAULT_CURSOR_ACCENT"
  "selectionTransparent (colors (snd (setTheme L empty_theme s))) = DEFAULT_SELECTION"
  "selectionOpaque (colors (snd (setTheme L empty_theme s)))
     = blend L DEFAULT_BACKGROUND DEFAULT_SELECTION"
  "selectionForeground (colors (snd (setTheme L empty_theme s))) = None"
  "js_get (ansi (colors (snd (setTheme L empty_theme s)))) j =
     (if j < 16 then Some (DEFAULT_ANSI_COLORS L ! j) else js_get (ansi (colors s)) j)"
proof -
  have e: "theme_extendedAnsi empty_theme = None" by (simp add: empty_theme_def)
  have s: "snd (setTheme L empty_theme s)
             = updateRestoreColors ((setTheme_fixed L empty_theme s)\<lparr>contrastCache := cache_clear\<rparr>)"
    by (simp add: setTheme_def setTheme_colors_def e)
  have f: "theme_foreground empty_theme = None" "theme_background empty_theme = None"
    "theme_cursor empty_theme = None" "theme_cursorAccent empty_theme = None"
    "theme_selection empty_theme = None" "theme_selectionForeground empty_theme = None"
    by (simp_all add: empty_theme_def)
  have a: "j < 16 \<Longrightarrow> theme_ansi empty_theme ! j = None"
  proof -
    assume j: "j < 16"
    have "list_all (\<lambda>x. x = None) (theme_ansi empty_theme)"
      by (simp add: theme_ansi_def empty_theme_def)
    then have "\<forall>i<length (theme_ansi empty_theme). theme_ansi empty_theme ! i = None"
      by (simp only: list_all_length)
    then show ?thesis using j by simp
  qed
  show "foreground (colors (snd (setTheme L empty_theme s))) = DEFAULT_FOREGROUND"
    "background (colors (snd (setTheme L empty_theme s))) = DEFAULT_BACKGROUND"
    "cursor (colors (snd (setTheme L empty_theme s))) = DEFAULT_CURSOR"
    "cursorAccent (colors (snd (setTheme L empty_theme s))) = DEFAULT_CURSOR_ACCENT"
    "selectionTransparent (colors (snd (setTheme L empty_theme s))) = DEFAULT_SELECTION"
    "selectionOpaque (colors (snd (setTheme L empty_theme s)))
       = blend L DEFAULT_BACKGROUND DEFAULT_SELECTION"
    "selectionForeground (colors (snd (setTheme L empty_theme s))) = None"
    by (simp_all add: s updateRestoreColors_def setTheme_fixed_fields parseColor_def f
        not_opaque_DEFAULT_SELECTION)
  show "js_get (ansi (colors (snd (setTheme L empty_theme s)))) j =
     (if j < 16 then Some (DEFAULT_ANSI_COLORS L ! j) else js_get (ansi (colors s)) j)"
    using a by (simp add: setTheme_get_absent [OF e] parseColor_def)
qed

lemma default_16: "DEFAULT_ANSI_COLORS example_lib ! 16 = \<lparr>css = ''#000000'', rgba = 0x000000FF\<rparr>"
proof -
  have "DEFAULT_ANSI_COLORS example_lib ! 16 = cube_entry example_lib 0"
    using DEFAULT_ANSI_COLORS_cube [of 16 example_lib] by simp
  also have "\<dots> = \<lparr>css = ''#000000'', rgba = 0x000000FF\<rparr>"
    by (simp add: cube_entry_eq v_def example_lib_def example_hex_def trunc_def toRgba_def
        ToInt32_def)
  finally show ?thesis .
qed

text \<open>
  C9. \<^verbatim>\<open>setTheme({})\<close> resets the seven structural fields and the slots 0..15 to the
  defaults, and, \<^verbatim>\<open>extendedAnsi\<close> being absent, skips the loop of lines 170-175 and leaves
  the slots from 16 on as they were (\<open>setTheme_empty_theme\<close>). On the example host, after
  \<^verbatim>\<open>setTheme({extendedAnsi: ['#ffffff']})\<close> the call \<^verbatim>\<open>setTheme({})\<close> returns and slot 16
  still is the white of the first theme, where the default palette has black.
\<close>

theorem setTheme_empty_keeps_extended:
  "fst (setTheme example_lib (empty_theme\<lparr>theme_extendedAnsi := Some [''#ffffff'']\<rparr>)
          example_manager) = Normal \<and>
   fst (setTheme example_lib empty_theme
          (snd (setTheme example_lib (empty_theme\<lparr>theme_extendedAnsi := Some [''#ffffff'']\<rparr>)
                  example_manager))) = Normal \<and>
   js_get (ansi (colors (snd (setTheme example_lib empty_theme
          (snd (setTheme example_lib (empty_theme\<lparr>theme_extendedAnsi := Some [''#ffffff'']\<rparr>)
                  example_manager)))))) 16
     = Some \<lparr>css = ''#ffffff'', rgba = 0xFFFFFFFF\<rparr> \<and>
   DEFAULT_ANSI_COLORS example_lib ! 16 = \<lparr>css = ''#000000'', rgba = 0x000000FF\<rparr>"
proof -
  define th where "th = empty_theme\<lparr>theme_extendedAnsi := Some [''#ffffff'']\<rparr>"
  have ext: "theme_extendedAnsi th = Some [''#ffffff'']" by (simp add: th_def)
  have full: "full_palette (ansi (colors example_manager))"
    using full_palette_constructed(1) [of example_lib example_context False]
    by (simp add: example_manager_def)
  have pal: "case theme_extendedAnsi th of None \<Rightarrow> True | Some xs \<Rightarrow> length xs \<le> 240"
    by (simp add: ext)
  have a: "fst (setTheme example_lib th example_manager) = Normal"
    by (rule setTheme_in_palette(1) [OF pal full])
  have b: "fst (setTheme example_lib empty_theme (snd (setTheme example_lib th example_manager)))
             = Normal"
    by (rule setTheme_normal_no_extendedAnsi) (simp add: empty_theme_def)
  have c: "js_get (ansi (colors (snd (setTheme example_lib empty_theme
             (snd (setTheme example_lib th example_manager)))))) 16
           = Some \<lparr>css = ''#ffffff'', rgba = 0xFFFFFFFF\<rparr>"
    by (simp add: setTheme_empty_theme(8) setTheme_get_extended [OF ext] js_index_def parse_white)
  from a b c default_16 show ?thesis unfolding th_def by simp
qed

lemma opaque_color_alpha: "rgba (opaque_color res) AND 0xFF = ucast (data_3 res)"
proof -
  have "rgba (opaque_color res) =
          push_bit 24 (ucast (data_0 res)) OR push_bit 16 (ucast (data_1 res))
          OR push_bit 8 (ucast (data_2 res)) OR ucast (data_3 res)"
    by (simp add: opaque_color_def toRgba_def ToInt32_unsigned)
  then show ?thesis by (simp only: unpack_bytes(4))
qed

lemma parseColor_nullColor:
  assumes "c \<noteq> []"
  shows "fst (parseColor context (Some c) nullColor tr) = nullColor \<longleftrightarrow>
           (case context c of None \<Rightarrow> True | Some res \<Rightarrow> data_3 res \<noteq> 0xFF \<and> \<not> tr)"
proof (cases "context c")
  case None
  then show ?thesis by (simp add: parseColor_def)
next
  case (Some res)
  have t: "transparent_color (fillStyle res) c \<noteq> nullColor"
    using assms by (auto simp: transparent_color_def nullColor_def Let_def)
  have o: "opaque_color res \<noteq> nullColor" if "data_3 res = 0xFF"
  proof
    assume "opaque_color res = nullColor"
    then have "rgba (opaque_color res) AND 0xFF = 0" by (simp add: nullColor_def)
    moreover have "rgba (opaque_color res) AND 0xFF = 0xFF"
      using that by (simp only: opaque_color_alpha) simp
    ultimately show False by simp
  qed
  show ?thesis using Some t o by (auto simp: parseColor_def)
qed

section \<open>\<^verbatim>\<open>restoreColor\<close> after a \<^verbatim>\<open>setTheme\<close> call that throws\<close>






end
